theory Spec2Isabelle
  imports Complex_Main
begin

section \<open>JavaScript numbers\<close>

text \<open>
  The script computes with JavaScript numbers. They are modelled as real numbers
  extended with the three special values that JavaScript arithmetic produces instead of
  raising: \<open>NaN\<close> and the two infinities. Division by zero is therefore a value, as in
  the language, and not an error. In this section a finite result is the exact real
  result: rounding, overflow and the sign of zero are left out. That is what the script
  computes wherever every intermediate result is a double. The operations with rounding
  follow in the section on double precision.
\<close>

datatype number = Fin real | PosInf | NegInf | NaN

fun signed_inf :: "real \<Rightarrow> number" where
  "signed_inf s = (if s = 0 then NaN else if 0 < s then PosInf else NegInf)"

fun js_neg :: "number \<Rightarrow> number" where
  "js_neg (Fin x) = Fin (- x)"
| "js_neg PosInf = NegInf"
| "js_neg NegInf = PosInf"
| "js_neg NaN = NaN"

fun js_add :: "number \<Rightarrow> number \<Rightarrow> number" where
  "js_add (Fin x) (Fin y) = Fin (x + y)"
| "js_add NaN b = NaN"
| "js_add a NaN = NaN"
| "js_add PosInf NegInf = NaN"
| "js_add NegInf PosInf = NaN"
| "js_add PosInf b = PosInf"
| "js_add NegInf b = NegInf"
| "js_add (Fin x) b = b"

definition js_sub :: "number \<Rightarrow> number \<Rightarrow> number" where
  "js_sub a b = js_add a (js_neg b)"

fun js_mul :: "number \<Rightarrow> number \<Rightarrow> number" where
  "js_mul (Fin x) (Fin y) = Fin (x * y)"
| "js_mul NaN b = NaN"
| "js_mul a NaN = NaN"
| "js_mul (Fin x) PosInf = signed_inf x"
| "js_mul (Fin x) NegInf = signed_inf (- x)"
| "js_mul PosInf (Fin y) = signed_inf y"
| "js_mul NegInf (Fin y) = signed_inf (- y)"
| "js_mul PosInf PosInf = PosInf"
| "js_mul NegInf NegInf = PosInf"
| "js_mul PosInf NegInf = NegInf"
| "js_mul NegInf PosInf = NegInf"

fun js_div :: "number \<Rightarrow> number \<Rightarrow> number" where
  "js_div (Fin x) (Fin y) = (if y = 0 then signed_inf x else Fin (x / y))"
| "js_div NaN b = NaN"
| "js_div a NaN = NaN"
| "js_div (Fin x) b = Fin 0"
| "js_div PosInf (Fin y) = (if 0 \<le> y then PosInf else NegInf)"
| "js_div NegInf (Fin y) = (if 0 \<le> y then NegInf else PosInf)"
| "js_div a b = NaN"

text \<open>The remainder operator \<open>%\<close> truncates the quotient toward zero, so the result has
  the sign of the dividend.\<close>

definition trunc :: "real \<Rightarrow> int" where
  "trunc x = (if 0 \<le> x then \<lfloor>x\<rfloor> else \<lceil>x\<rceil>)"

fun js_rem :: "number \<Rightarrow> number \<Rightarrow> number" where
  "js_rem (Fin x) (Fin y) = (if y = 0 then NaN else Fin (x - y * of_int (trunc (x / y))))"
| "js_rem NaN b = NaN"
| "js_rem a NaN = NaN"
| "js_rem (Fin x) b = Fin x"
| "js_rem a b = NaN"

fun js_sin :: "number \<Rightarrow> number" where
  "js_sin (Fin x) = Fin (sin x)"
| "js_sin a = NaN"

fun js_cos :: "number \<Rightarrow> number" where
  "js_cos (Fin x) = Fin (cos x)"
| "js_cos a = NaN"

text \<open>Comparisons with \<open>NaN\<close> are false.\<close>

fun js_lt :: "number \<Rightarrow> number \<Rightarrow> bool" where
  "js_lt (Fin x) (Fin y) = (x < y)"
| "js_lt NaN b = False"
| "js_lt a NaN = False"
| "js_lt a NegInf = False"
| "js_lt PosInf b = False"
| "js_lt a b = True"

definition js_gt :: "number \<Rightarrow> number \<Rightarrow> bool" where
  "js_gt a b = js_lt b a"

definition Math_PI :: number where
  "Math_PI = Fin pi"

section \<open>Radius by viewport width\<close>

text \<open>
  \<^verbatim>\<open>
  function getPointRadius() {
    const screenWidth = window.innerWidth;
    if (screenWidth <= 480) return 70;
    if (screenWidth <= 768) return 75;
    if (screenWidth <= 1200) return 100;
    return 120;
  }
  \<close>
  The function reads \<open>window.innerWidth\<close>, an integer number of pixels; the model takes it
  as the argument.
\<close>

definition getPointRadius :: "int \<Rightarrow> int" where
  "getPointRadius screenWidth =
     (if screenWidth \<le> 480 then 70
      else if screenWidth \<le> 768 then 75
      else if screenWidth \<le> 1200 then 100
      else 120)"

section \<open>The page as the script sees it\<close>

text \<open>
  A pose is what \<open>gsap.set\<close> writes on a text element: the \<open>y\<close> and \<open>z\<close> offsets and the
  \<open>rotateX\<close> angle in degrees. A text element keeps the pose last written (none before
  the first write) and whether its class list holds \<open>focus\<close>.
\<close>

record pose =
  pose_y :: number
  pose_z :: number
  pose_rotateX :: number

record text_el =
  transform :: "pose option"
  focus :: bool

text \<open>
  The variables that the \<open>onUpdate\<close> callback of a scroll trigger closes over:
  \<open>let radius = getPointRadius()\<close> and \<open>const totalTexts = pointTexts.length\<close>. The
  array \<open>pointTexts\<close> holds the first \<open>totalTexts\<close> elements matching
  \<open>.point .ani_text p\<close>, so it is given by that count.
\<close>

record closure =
  radius :: int
  totalTexts :: nat

record page =
  innerWidth :: int
  gsap_defined :: bool
  ScrollTrigger_defined :: bool
  AOS_defined :: bool
  ani_texts :: "text_el list"
  console :: "string list"
  triggers :: "closure list"

datatype js_error = ReferenceError string

text \<open>Reading a global that is not defined throws; \<open>typeof\<close> does not.\<close>

definition global_ref :: "bool \<Rightarrow> string \<Rightarrow> js_error + unit" where
  "global_ref defined name = (if defined then Inr () else Inl (ReferenceError name))"

definition console_error :: "string \<Rightarrow> page \<Rightarrow> page" where
  "console_error msg p = p\<lparr>console := console p @ [msg]\<rparr>"

definition num :: "nat \<Rightarrow> number" where
  "num n = Fin (real n)"

text \<open>\<open>pointTexts.forEach((text, index) => ...)\<close>: the callback runs on each of the first
  \<open>totalTexts\<close> elements, which are objects of the page and are changed in place.\<close>

definition forEach :: "nat \<Rightarrow> (text_el \<Rightarrow> nat \<Rightarrow> text_el) \<Rightarrow> text_el list \<Rightarrow> text_el list" where
  "forEach n f els =
     map (\<lambda>(index, text). if index < n then f text index else text) (enumerate 0 els)"

section \<open>The scroll-to-pose projector\<close>

text \<open>
  \<^verbatim>\<open>
  function initializePointTexts() {
    const currentRadius = getPointRadius();
    pointTexts.forEach((text, index) => {
      const angle = (index / (totalTexts - 1)) * Math.PI;
      const y = Math.sin(angle) * currentRadius;
      const z = Math.cos(angle) * currentRadius;
      gsap.set(text, { y: y, z: z, rotateX: -((angle * 180) / Math.PI) });
    });
  }
  \<close>
\<close>

definition initialPose :: "nat \<Rightarrow> int \<Rightarrow> nat \<Rightarrow> pose" where
  "initialPose n currentRadius index =
     (let angle = js_mul (js_div (num index) (js_sub (num n) (Fin 1))) Math_PI;
          y = js_mul (js_sin angle) (Fin (of_int currentRadius));
          z = js_mul (js_cos angle) (Fin (of_int currentRadius))
      in \<lparr>pose_y = y, pose_z = z,
          pose_rotateX = js_neg (js_div (js_mul angle (Fin 180)) Math_PI)\<rparr>)"

definition initializePointTexts :: "nat \<Rightarrow> page \<Rightarrow> js_error + page" where
  "initializePointTexts n p =
     (let currentRadius = getPointRadius (innerWidth p) in
      (case global_ref (gsap_defined p) ''gsap'' of
         Inl e \<Rightarrow> Inl e
       | Inr _ \<Rightarrow>
           Inr (p\<lparr>ani_texts :=
                  forEach n
                    (\<lambda>text index. text\<lparr>transform := Some (initialPose n currentRadius index)\<rparr>)
                    (ani_texts p)\<rparr>)))"

text \<open>
  The body of \<open>onUpdate\<close>, for one element:
  \<^verbatim>\<open>
  const progress = self.progress;
  const rotationProgress = progress * (totalTexts - 1);
  pointTexts.forEach((text, index) => {
    const baseAngle = (index / (totalTexts - 1)) * Math.PI;
    const currentAngle =
      baseAngle - (rotationProgress * Math.PI) / (totalTexts - 1);
    const y = Math.sin(currentAngle) * radius;
    const z = Math.cos(currentAngle) * radius;
    const rotateX = -((currentAngle * 180) / Math.PI);
    const normalizedAngle =
      ((currentAngle % (Math.PI * 2)) + Math.PI * 2) % (Math.PI * 2);
    const isFocus =
      normalizedAngle < 0.3 || normalizedAngle > Math.PI * 2 - 0.3;
    gsap.set(text, { y: y, z: z, rotateX: rotateX });
    if (isFocus) { text.classList.add('focus'); }
    else { text.classList.remove('focus'); }
  });
  \<close>
  The progress is the value in \<open>[0, 1]\<close> that the scroll trigger delivers, a finite number.
\<close>

definition rotationProgress :: "nat \<Rightarrow> real \<Rightarrow> number" where
  "rotationProgress n progress = js_mul (Fin progress) (js_sub (num n) (Fin 1))"

definition baseAngle :: "nat \<Rightarrow> nat \<Rightarrow> number" where
  "baseAngle n index = js_mul (js_div (num index) (js_sub (num n) (Fin 1))) Math_PI"

definition currentAngle :: "nat \<Rightarrow> real \<Rightarrow> nat \<Rightarrow> number" where
  "currentAngle n progress index =
     js_sub (baseAngle n index)
       (js_div (js_mul (rotationProgress n progress) Math_PI) (js_sub (num n) (Fin 1)))"

definition poseAt :: "int \<Rightarrow> number \<Rightarrow> pose" where
  "poseAt r angle =
     \<lparr>pose_y = js_mul (js_sin angle) (Fin (of_int r)),
      pose_z = js_mul (js_cos angle) (Fin (of_int r)),
      pose_rotateX = js_neg (js_div (js_mul angle (Fin 180)) Math_PI)\<rparr>"

definition normalizedAngle :: "number \<Rightarrow> number" where
  "normalizedAngle angle =
     js_rem (js_add (js_rem angle (js_mul Math_PI (Fin 2))) (js_mul Math_PI (Fin 2)))
       (js_mul Math_PI (Fin 2))"

definition isFocus :: "number \<Rightarrow> bool" where
  "isFocus angle =
     (js_lt (normalizedAngle angle) (Fin 0.3) \<or>
      js_gt (normalizedAngle angle) (js_sub (js_mul Math_PI (Fin 2)) (Fin 0.3)))"

definition updateText :: "closure \<Rightarrow> real \<Rightarrow> text_el \<Rightarrow> nat \<Rightarrow> text_el" where
  "updateText c progress text index =
     (let angle = currentAngle (totalTexts c) progress index in
      text\<lparr>transform := Some (poseAt (radius c) angle), focus := isFocus angle\<rparr>)"

definition onUpdate :: "closure \<Rightarrow> real \<Rightarrow> page \<Rightarrow> js_error + page" where
  "onUpdate c progress p =
     (case global_ref (gsap_defined p) ''gsap'' of
        Inl e \<Rightarrow> Inl e
      | Inr _ \<Rightarrow>
          Inr (p\<lparr>ani_texts := forEach (totalTexts c) (updateText c progress) (ani_texts p)\<rparr>))"

text \<open>
  \<^verbatim>\<open>
  function initPointAnimation() {
    if (typeof gsap === 'undefined' || typeof ScrollTrigger === 'undefined') {
      console.error('GSAP or ScrollTrigger not loaded');
      return;
    }
    const pointTexts = gsap.utils.toArray('.point .ani_text p').slice(0, 4);
    if (pointTexts.length === 0) return;
    ...
    let radius = getPointRadius();
    const totalTexts = pointTexts.length;
    ...
    initializePointTexts();
    ScrollTrigger.create({ ..., onUpdate: (self) => { ... } });
  }
  \<close>
\<close>

definition gsap_utils_toArray :: "page \<Rightarrow> js_error + text_el list" where
  "gsap_utils_toArray p =
     (case global_ref (gsap_defined p) ''gsap'' of
        Inl e \<Rightarrow> Inl e
      | Inr _ \<Rightarrow> Inr (ani_texts p))"

definition ScrollTrigger_create :: "closure \<Rightarrow> page \<Rightarrow> js_error + page" where
  "ScrollTrigger_create c p =
     (case global_ref (ScrollTrigger_defined p) ''ScrollTrigger'' of
        Inl e \<Rightarrow> Inl e
      | Inr _ \<Rightarrow> Inr (p\<lparr>triggers := triggers p @ [c]\<rparr>))"

definition initPointAnimation :: "page \<Rightarrow> js_error + page" where
  "initPointAnimation p =
     (if \<not> gsap_defined p \<or> \<not> ScrollTrigger_defined p
      then Inr (console_error ''GSAP or ScrollTrigger not loaded'' p)
      else
        case gsap_utils_toArray p of
          Inl e \<Rightarrow> Inl e
        | Inr found \<Rightarrow>
            let pointTexts = take 4 found in
            if length pointTexts = 0 then Inr p
            else
              let c = \<lparr>radius = getPointRadius (innerWidth p),
                       totalTexts = length pointTexts\<rparr>
              in (case initializePointTexts (totalTexts c) p of
                    Inl e \<Rightarrow> Inl e
                  | Inr p' \<Rightarrow> ScrollTrigger_create c p'))"

text \<open>
  The events that reach the script after setup. A resize changes \<open>window.innerWidth\<close> and
  runs the resize listener:
  \<^verbatim>\<open>
  const handleResize = throttle(() => {
    if (typeof AOS !== 'undefined') { AOS.refresh(); }
    if (typeof ScrollTrigger !== 'undefined') { ScrollTrigger.refresh(); }
  }, 200);
  window.addEventListener('resize', handleResize);
  \<close>
  The two library calls recompute positions that the libraries keep themselves; they take
  no argument from the script and assign none of its variables, so they leave the page
  state of this theory as it is. The throttle only drops calls; the model runs the body
  on every resize. A scroll update is one call of \<open>onUpdate\<close> of every trigger created,
  with the progress the library delivers (a call the library makes during a refresh is
  such an event too).
\<close>

datatype event = Resize int | ScrollUpdate real

definition AOS_refresh :: "page \<Rightarrow> page" where
  "AOS_refresh p = p"

definition ScrollTrigger_refresh :: "page \<Rightarrow> page" where
  "ScrollTrigger_refresh p = p"

definition handleResize :: "page \<Rightarrow> page" where
  "handleResize p =
     (let p1 = (if AOS_defined p then AOS_refresh p else p)
      in if ScrollTrigger_defined p1 then ScrollTrigger_refresh p1 else p1)"

fun runTriggers :: "closure list \<Rightarrow> real \<Rightarrow> page \<Rightarrow> js_error + page" where
  "runTriggers [] progress p = Inr p"
| "runTriggers (c # cs) progress p =
     (case onUpdate c progress p of
        Inl e \<Rightarrow> Inl e
      | Inr p' \<Rightarrow> runTriggers cs progress p')"

fun fire :: "event \<Rightarrow> page \<Rightarrow> js_error + page" where
  "fire (Resize w) p = Inr (handleResize (p\<lparr>innerWidth := w\<rparr>))"
| "fire (ScrollUpdate progress) p = runTriggers (triggers p) progress p"

fun fireAll :: "event list \<Rightarrow> page \<Rightarrow> js_error + page" where
  "fireAll [] p = Inr p"
| "fireAll (ev # evs) p =
     (case fire ev p of
        Inl e \<Rightarrow> Inl e
      | Inr p' \<Rightarrow> fireAll evs p')"

section \<open>The background image preloader\<close>

text \<open>
  What the browser does is given from outside: the protocol of the page, whether the WebP
  probe image decodes (\<open>webP.height === 2\<close> when its \<open>onload\<close> or \<open>onerror\<close> fires), what
  each image load reports (\<open>onload\<close>, \<open>onerror\<close>, or no event), and whether the page has
  the \<open>.point_box\<close> element.
\<close>

datatype outcome = Loaded | Errored | NoEvent

record browser =
  protocol :: string
  webp_decodes :: bool
  image_result :: "string \<Rightarrow> outcome"
  has_point_box :: bool

text \<open>
  One invocation is described by what it does, in order, and by the state of the promise
  it returns once every callback that can fire has fired. \<open>SetBackground\<close> stands for the
  writes of \<open>applyBackgroundImage\<close> on the host element (the background image and the
  class \<open>bg-loaded\<close>). The console messages are named, not spelled out.
\<close>

datatype message = LocalFileSkipped | BackgroundLoaded | BackgroundFailed

datatype action =
    ProbeWebP
  | PreloadLink string
  | LoadImage string
  | SetBackground string
  | ConsoleLog message
  | ConsoleError message

datatype promise = Pending | Resolved "bool option" | Rejected bool

record invocation =
  actions :: "action list"
  returned :: promise

text \<open>\<open>s.includes(t)\<close> on strings.\<close>

fun starts_with :: "string \<Rightarrow> string \<Rightarrow> bool" where
  "starts_with s [] = True"
| "starts_with [] (c # t) = False"
| "starts_with (a # s) (c # t) = (a = c \<and> starts_with s t)"

fun str_includes :: "string \<Rightarrow> string \<Rightarrow> bool" where
  "str_includes [] t = (t = [])"
| "str_includes (a # s) t = (starts_with (a # s) t \<or> str_includes s t)"

definition webp_path :: string where
  "webp_path = ''./images/point_bg.webp''"

definition jpg_path :: string where
  "jpg_path = ''./images/point_bg.jpg''"

text \<open>
  \<^verbatim>\<open>
  function applyBackgroundImage(imagePath) {
    const pointBox = document.querySelector('.point_box');
    if (!pointBox) return;
    ...
    pointBox.style.backgroundImage = `url('${imagePath}')`;
    pointBox.classList.add('bg-loaded');
    ...
  }
  function loadFallbackImage(fallbackPath) {
    const fallbackImg = new Image();
    fallbackImg.onload = () => applyBackgroundImage(fallbackPath);
    fallbackImg.src = fallbackPath;
  }
  \<close>
  The fallback image has an \<open>onload\<close> handler only.
\<close>

definition applyBackgroundImage :: "browser \<Rightarrow> string \<Rightarrow> action list" where
  "applyBackgroundImage b imagePath =
     (if has_point_box b then [SetBackground imagePath] else [])"

definition loadFallbackImage :: "browser \<Rightarrow> string \<Rightarrow> action list" where
  "loadFallbackImage b fallbackPath =
     LoadImage fallbackPath #
       (case image_result b fallbackPath of
          Loaded \<Rightarrow> applyBackgroundImage b fallbackPath
        | Errored \<Rightarrow> []
        | NoEvent \<Rightarrow> [])"

text \<open>
  \<^verbatim>\<open>
  async function aggressivePreloadImages() {
    if (window.location.protocol === 'file:') { console.log(...); return; }
    const isWebPSupported = await supportsWebP();
    const bgImagePath = isWebPSupported
      ? './images/point_bg.webp' : './images/point_bg.jpg';
    const preloadLink = document.createElement('link');
    ... preloadLink.href = bgImagePath; ...
    document.head.appendChild(preloadLink);
    return new Promise((resolve, reject) => {
      const img = new Image();
      ...
      img.onload = () => {
        console.log('Background image loaded successfully');
        applyBackgroundImage(bgImagePath);
        resolve(true);
      };
      img.onerror = () => {
        console.error('Failed to load background image');
        if (isWebPSupported && bgImagePath.includes('.webp')) {
          loadFallbackImage('./images/point_bg.jpg');
        } else {
          reject(false);
        }
      };
      img.src = bgImagePath;
    });
  }
  \<close>
\<close>

definition aggressivePreloadImages :: "browser \<Rightarrow> invocation" where
  "aggressivePreloadImages b =
     (if protocol b = ''file:''
      then \<lparr>actions = [ConsoleLog LocalFileSkipped], returned = Resolved None\<rparr>
      else
        let isWebPSupported = webp_decodes b;
            bgImagePath = (if isWebPSupported then webp_path else jpg_path);
            started = [ProbeWebP, PreloadLink bgImagePath, LoadImage bgImagePath]
        in (case image_result b bgImagePath of
              Loaded \<Rightarrow>
                \<lparr>actions = started @ [ConsoleLog BackgroundLoaded] @
                             applyBackgroundImage b bgImagePath,
                 returned = Resolved (Some True)\<rparr>
            | Errored \<Rightarrow>
                (if isWebPSupported \<and> str_includes bgImagePath ''.webp''
                 then \<lparr>actions = started @ [ConsoleError BackgroundFailed] @
                                  loadFallbackImage b jpg_path,
                       returned = Pending\<rparr>
                 else \<lparr>actions = started @ [ConsoleError BackgroundFailed],
                       returned = Rejected False\<rparr>)
            | NoEvent \<Rightarrow> \<lparr>actions = started, returned = Pending\<rparr>))"

text \<open>The paths an invocation asks the browser for (resource hints and image loads), and
  the paths it loads through an image object.\<close>

fun requested :: "action list \<Rightarrow> string list" where
  "requested [] = []"
| "requested (PreloadLink path # rest) = path # requested rest"
| "requested (LoadImage path # rest) = path # requested rest"
| "requested (a # rest) = requested rest"

fun image_loads :: "action list \<Rightarrow> string list" where
  "image_loads [] = []"
| "image_loads (LoadImage path # rest) = path # image_loads rest"
| "image_loads (a # rest) = image_loads rest"

section \<open>Example inputs\<close>

definition fresh_text :: text_el where
  "fresh_text = \<lparr>transform = None, focus = False\<rparr>"

text \<open>A page 1300 pixels wide with the libraries loaded, holding four text elements.\<close>

definition page_four :: page where
  "page_four =
     \<lparr>innerWidth = 1300, gsap_defined = True, ScrollTrigger_defined = True,
      AOS_defined = True,
      ani_texts = [fresh_text, fresh_text, fresh_text, fresh_text],
      console = [], triggers = []\<rparr>"

text \<open>The same page with a single text element.\<close>

definition page_one :: page where
  "page_one = page_four\<lparr>ani_texts := [fresh_text]\<rparr>"

text \<open>The same page before the animation library has loaded.\<close>

definition page_no_gsap :: page where
  "page_no_gsap = page_four\<lparr>gsap_defined := False\<rparr>"

text \<open>A browser that decodes WebP and in which every image load fails.\<close>

definition browser_all_fail :: browser where
  "browser_all_fail =
     \<lparr>protocol = ''https:'', webp_decodes = True,
      image_result = (\<lambda>path. Errored), has_point_box = True\<rparr>"

text \<open>A browser that does not decode WebP and loads every image.\<close>

definition browser_no_webp :: browser where
  "browser_no_webp =
     \<lparr>protocol = ''https:'', webp_decodes = False,
      image_result = (\<lambda>path. Loaded), has_point_box = True\<rparr>"

section \<open>Arithmetic in double precision\<close>

text \<open>
  The operations of the first section give a finite result exactly. The script computes
  in IEEE double precision, where each of \<open>+\<close>, \<open>-\<close>, \<open>*\<close> and \<open>/\<close> returns the real
  result rounded to the nearest double, ties to the even mantissa, with gradual
  underflow, and with overflow to an infinity. A double is kept as the real number it
  stands for; the sign of zero is not modelled. The remainder \<open>%\<close> of two finite doubles
  is a double already, so \<open>js_rem\<close> is the operation in double precision too, and so are
  the negation and the comparisons.
\<close>

definition pow2 :: "int \<Rightarrow> real" where
  "pow2 e = (if 0 \<le> e then 2 ^ nat e else 1 / 2 ^ nat (- e))"

definition round_half_even :: "real \<Rightarrow> int" where
  "round_half_even m =
     (let f = \<lfloor>m\<rfloor>; d = m - of_int f
      in if d < 1 / 2 then f else if 1 / 2 < d then f + 1 else if even f then f else f + 1)"

text \<open>The binary exponent of a double, which is at least that of the subnormal numbers.\<close>

definition exponent :: "real \<Rightarrow> int" where
  "exponent x = max \<lfloor>log 2 \<bar>x\<bar>\<rfloor> (- 1022)"

definition to_double :: "real \<Rightarrow> number" where
  "to_double x =
     (if x = 0 then Fin 0
      else
        let q = pow2 (exponent x - 52);
            y = q * of_int (round_half_even (x / q))
        in if pow2 1024 \<le> \<bar>y\<bar> then (if 0 < x then PosInf else NegInf) else Fin y)"

fun d_add :: "number \<Rightarrow> number \<Rightarrow> number" where
  "d_add (Fin x) (Fin y) = to_double (x + y)"
| "d_add a b = js_add a b"

definition d_sub :: "number \<Rightarrow> number \<Rightarrow> number" where
  "d_sub a b = d_add a (js_neg b)"

fun d_mul :: "number \<Rightarrow> number \<Rightarrow> number" where
  "d_mul (Fin x) (Fin y) = to_double (x * y)"
| "d_mul a b = js_mul a b"

fun d_div :: "number \<Rightarrow> number \<Rightarrow> number" where
  "d_div (Fin x) (Fin y) = (if y = 0 then signed_inf x else to_double (x / y))"
| "d_div a b = js_div a b"

text \<open>\<open>Math.PI\<close> is the double nearest to \<open>\<pi>\<close>, and the literal \<open>0.3\<close> the double nearest to
  three tenths.\<close>

definition pi_d :: real where
  "pi_d = 884279719003555 / 2 ^ 48"

definition Math_PI_d :: number where
  "Math_PI_d = Fin pi_d"

definition literal_0_3 :: number where
  "literal_0_3 = Fin (5404319552844595 / 2 ^ 54)"

text \<open>\<open>Math.sin\<close> and \<open>Math.cos\<close> are approximations that the engine chooses; they are
  taken as given, as functions from finite doubles to doubles. Of any other argument
  they return \<open>NaN\<close>.\<close>

record engine =
  Math_sin :: "real \<Rightarrow> real"
  Math_cos :: "real \<Rightarrow> real"

fun engine_call :: "(real \<Rightarrow> real) \<Rightarrow> number \<Rightarrow> number" where
  "engine_call f (Fin x) = Fin (f x)"
| "engine_call f a = NaN"

section \<open>The projector in double precision\<close>

text \<open>The same lines of \<open>initializePointTexts\<close> and of \<open>onUpdate\<close>, with every operation
  rounded.\<close>

definition initialPose_d :: "engine \<Rightarrow> nat \<Rightarrow> int \<Rightarrow> nat \<Rightarrow> pose" where
  "initialPose_d E n currentRadius index =
     (let angle = d_mul (d_div (num index) (d_sub (num n) (Fin 1))) Math_PI_d;
          y = d_mul (engine_call (Math_sin E) angle) (Fin (of_int currentRadius));
          z = d_mul (engine_call (Math_cos E) angle) (Fin (of_int currentRadius))
      in \<lparr>pose_y = y, pose_z = z,
          pose_rotateX = js_neg (d_div (d_mul angle (Fin 180)) Math_PI_d)\<rparr>)"

definition rotationProgress_d :: "nat \<Rightarrow> real \<Rightarrow> number" where
  "rotationProgress_d n progress = d_mul (Fin progress) (d_sub (num n) (Fin 1))"

definition baseAngle_d :: "nat \<Rightarrow> nat \<Rightarrow> number" where
  "baseAngle_d n index = d_mul (d_div (num index) (d_sub (num n) (Fin 1))) Math_PI_d"

definition currentAngle_d :: "nat \<Rightarrow> real \<Rightarrow> nat \<Rightarrow> number" where
  "currentAngle_d n progress index =
     d_sub (baseAngle_d n index)
       (d_div (d_mul (rotationProgress_d n progress) Math_PI_d) (d_sub (num n) (Fin 1)))"

definition poseAt_d :: "engine \<Rightarrow> int \<Rightarrow> number \<Rightarrow> pose" where
  "poseAt_d E r angle =
     \<lparr>pose_y = d_mul (engine_call (Math_sin E) angle) (Fin (of_int r)),
      pose_z = d_mul (engine_call (Math_cos E) angle) (Fin (of_int r)),
      pose_rotateX = js_neg (d_div (d_mul angle (Fin 180)) Math_PI_d)\<rparr>"

definition normalizedAngle_d :: "number \<Rightarrow> number" where
  "normalizedAngle_d angle =
     js_rem (d_add (js_rem angle (d_mul Math_PI_d (Fin 2))) (d_mul Math_PI_d (Fin 2)))
       (d_mul Math_PI_d (Fin 2))"

definition isFocus_d :: "number \<Rightarrow> bool" where
  "isFocus_d angle =
     (js_lt (normalizedAngle_d angle) literal_0_3 \<or>
      js_gt (normalizedAngle_d angle) (d_sub (d_mul Math_PI_d (Fin 2)) literal_0_3))"

definition updateText_d :: "engine \<Rightarrow> closure \<Rightarrow> real \<Rightarrow> text_el \<Rightarrow> nat \<Rightarrow> text_el" where
  "updateText_d E c progress text index =
     (let angle = currentAngle_d (totalTexts c) progress index in
      text\<lparr>transform := Some (poseAt_d E (radius c) angle), focus := isFocus_d angle\<rparr>)"

definition onUpdate_d :: "engine \<Rightarrow> closure \<Rightarrow> real \<Rightarrow> page \<Rightarrow> js_error + page" where
  "onUpdate_d E c progress p =
     (case global_ref (gsap_defined p) ''gsap'' of
        Inl e \<Rightarrow> Inl e
      | Inr _ \<Rightarrow>
          Inr (p\<lparr>ani_texts :=
                 forEach (totalTexts c) (updateText_d E c progress) (ani_texts p)\<rparr>))"

text \<open>The double nearest to one tenth.\<close>

definition tenth_d :: real where
  "tenth_d = 3602879701896397 / 2 ^ 55"

text \<open>An engine whose sine and cosine are the real ones rounded to a double.\<close>

definition rounded :: "real \<Rightarrow> real" where
  "rounded x = (case to_double x of Fin y \<Rightarrow> y | PosInf \<Rightarrow> 0 | NegInf \<Rightarrow> 0 | NaN \<Rightarrow> 0)"

definition rounding_engine :: engine where
  "rounding_engine = \<lparr>Math_sin = (\<lambda>x. rounded (sin x)), Math_cos = (\<lambda>x. rounded (cos x))\<rparr>"

section \<open>Facts about the model\<close>

lemma forEach_length: "length (forEach n f els) = length els"
  by (simp add: forEach_def)

lemma forEach_nth:
  "i < length els \<Longrightarrow> forEach n f els ! i = (if i < n then f (els ! i) i else els ! i)"
  by (simp add: forEach_def nth_enumerate_eq)

lemma enumerate_four: "enumerate 0 [a, b, c, d] = [(0, a), (1, b), (2, c), (3, d)]"
  by (simp add: enumerate_eq_zip upt_rec)

lemma currentAngle_fin:
  assumes "2 \<le> n"
  shows "currentAngle n progress index = Fin (real index / (real n - 1) * pi - progress * pi)"
  using assms
  by (simp add: currentAngle_def baseAngle_def rotationProgress_def num_def js_sub_def
      Math_PI_def)

lemma currentAngle_single: "currentAngle (Suc 0) progress 0 = NaN"
  by (simp add: currentAngle_def baseAngle_def rotationProgress_def num_def js_sub_def
      Math_PI_def)

lemma onUpdate_triggers: "onUpdate c progress p = Inr p' \<Longrightarrow> triggers p' = triggers p"
  by (auto simp add: onUpdate_def global_ref_def split: if_splits)

lemma runTriggers_triggers: "runTriggers cs progress p = Inr p' \<Longrightarrow> triggers p' = triggers p"
proof (induction cs arbitrary: p)
  case Nil
  then show ?case by simp
next
  case (Cons c cs)
  then show ?case
    by (auto split: sum.splits dest: onUpdate_triggers)
qed

text \<open>No event changes the variables a trigger has closed over: the radius of every
  trigger stays the one computed at setup, whatever the viewport width becomes.\<close>

lemma fire_triggers: "fire ev p = Inr p' \<Longrightarrow> triggers p' = triggers p"
  by (cases ev)
    (auto simp add: handleResize_def AOS_refresh_def ScrollTrigger_refresh_def Let_def
      dest: runTriggers_triggers)

lemma fireAll_triggers: "fireAll evs p = Inr p' \<Longrightarrow> triggers p' = triggers p"
proof (induction evs arbitrary: p)
  case Nil
  then show ?case by simp
next
  case (Cons ev evs)
  then show ?case
    by (auto split: sum.splits dest: fire_triggers)
qed

subsection \<open>The remainder and the normalised angle\<close>

lemma rem_nonneg:
  fixes x y :: real
  assumes "0 < y" and "0 \<le> x"
  shows "0 \<le> x - y * of_int (trunc (x / y))" and "x - y * of_int (trunc (x / y)) < y"
proof -
  have "0 \<le> x / y" using assms by simp
  then have t: "trunc (x / y) = \<lfloor>x / y\<rfloor>" by (simp add: trunc_def)
  have "of_int \<lfloor>x / y\<rfloor> \<le> x / y" by (rule of_int_floor_le)
  then have "y * of_int \<lfloor>x / y\<rfloor> \<le> y * (x / y)"
    using assms(1) by (simp only: mult_le_cancel_left_pos)
  then have "y * of_int \<lfloor>x / y\<rfloor> \<le> x"
    using assms(1) by simp
  then show "0 \<le> x - y * of_int (trunc (x / y))" using t by simp
  have "x / y < of_int \<lfloor>x / y\<rfloor> + 1" by linarith
  then have "y * (x / y) < y * (of_int \<lfloor>x / y\<rfloor> + 1)"
    using assms(1) by (simp only: mult_less_cancel_left_pos)
  then have "x < (of_int \<lfloor>x / y\<rfloor> + 1) * y"
    using assms(1) by (simp add: mult.commute)
  then show "x - y * of_int (trunc (x / y)) < y" using t by (simp add: algebra_simps)
qed

lemma rem_lower:
  fixes x y :: real
  assumes "0 < y"
  shows "- y < x - y * of_int (trunc (x / y))"
proof (cases "0 \<le> x")
  case True
  with rem_nonneg(1) [OF assms True] assms show ?thesis by linarith
next
  case False
  then have "x / y < 0" using assms by (simp add: divide_neg_pos)
  then have t: "trunc (x / y) = \<lceil>x / y\<rceil>" by (simp add: trunc_def)
  have "of_int \<lceil>x / y\<rceil> < x / y + 1" by linarith
  then have "of_int \<lceil>x / y\<rceil> * y < (x / y + 1) * y"
    using assms by (simp only: mult_less_cancel_right_pos)
  then have "of_int \<lceil>x / y\<rceil> * y < x + y"
    using assms by (simp add: algebra_simps)
  then show ?thesis using t by (simp add: algebra_simps)
qed

text \<open>For a finite angle the normalised angle is the angle moved by a whole number of
  turns into \<open>[0, 2\<pi>)\<close>.\<close>

lemma normalizedAngle_fin:
  "\<exists>k::int. normalizedAngle (Fin a) = Fin (a - 2 * pi * of_int k) \<and>
     0 \<le> a - 2 * pi * of_int k \<and> a - 2 * pi * of_int k < 2 * pi"
proof -
  define y where "y = 2 * pi"
  have y: "0 < y" by (simp add: y_def)
  define r1 where "r1 = a - y * of_int (trunc (a / y))"
  define r2 where "r2 = r1 + y"
  define r where "r = r2 - y * of_int (trunc (r2 / y))"
  have "- y < r1" unfolding r1_def by (rule rem_lower [OF y])
  then have r2: "0 \<le> r2" by (simp add: r2_def)
  have rng: "0 \<le> r" "r < y"
    unfolding r_def using rem_nonneg [OF y r2] by simp_all
  have eq: "r = a - 2 * pi * of_int (trunc (a / y) - 1 + trunc (r2 / y))"
    by (simp add: r_def r2_def r1_def y_def algebra_simps)
  have "normalizedAngle (Fin a) = Fin r"
    using y by (simp add: normalizedAngle_def Math_PI_def r_def r2_def r1_def y_def mult.commute)
  with rng eq show ?thesis unfolding y_def by metis
qed

lemma normalizedAngle_range:
  "\<exists>r. normalizedAngle (Fin a) = Fin r \<and> 0 \<le> r \<and> r < 2 * pi"
  using normalizedAngle_fin [of a] by blast

lemma normalizedAngle_NaN: "normalizedAngle NaN = NaN"
  by (simp add: normalizedAngle_def)

lemma isFocus_NaN: "\<not> isFocus NaN"
  by (simp add: isFocus_def normalizedAngle_NaN js_gt_def js_sub_def Math_PI_def)

lemma isFocus_near:
  assumes "isFocus (Fin a)"
  shows "\<exists>k::int. \<bar>a - 2 * pi * of_int k\<bar> < 0.3"
proof -
  obtain k :: int where k: "normalizedAngle (Fin a) = Fin (a - 2 * pi * of_int k)"
    "0 \<le> a - 2 * pi * of_int k" "a - 2 * pi * of_int k < 2 * pi"
    using normalizedAngle_fin by blast
  from assms k(1) have "a - 2 * pi * of_int k < 0.3 \<or> 2 * pi - 0.3 < a - 2 * pi * of_int k"
    by (simp add: isFocus_def js_gt_def js_sub_def Math_PI_def mult.commute)
  then show ?thesis
  proof
    assume "a - 2 * pi * of_int k < 0.3"
    with k(2) have "\<bar>a - 2 * pi * of_int k\<bar> < 0.3" by simp
    then show ?thesis by blast
  next
    assume h: "2 * pi - 0.3 < a - 2 * pi * of_int k"
    have "a - 2 * pi * of_int (k + 1) = a - 2 * pi * of_int k - 2 * pi"
      by (simp add: algebra_simps)
    with h k(3) have "\<bar>a - 2 * pi * of_int (k + 1)\<bar> < 0.3" by simp
    then show ?thesis by blast
  qed
qed

text \<open>Two angles that differ by one to five sixths of a turn are never both in focus.\<close>

lemma focus_apart:
  fixes a b :: real and d :: int
  assumes fa: "isFocus (Fin a)" and fb: "isFocus (Fin b)"
    and diff: "a - b = of_int d * (pi / 3)" and d: "d \<noteq> 0" "\<bar>d\<bar> < 6"
  shows False
proof -
  obtain k :: int where k: "\<bar>a - 2 * pi * of_int k\<bar> < 0.3"
    using isFocus_near [OF fa] by blast
  obtain l :: int where l: "\<bar>b - 2 * pi * of_int l\<bar> < 0.3"
    using isFocus_near [OF fb] by blast
  define m where "m = d - 6 * (k - l)"
  have m: "m \<noteq> 0" using d unfolding m_def by presburger
  have "(a - 2 * pi * of_int k) - (b - 2 * pi * of_int l) = of_int m * (pi / 3)"
    using diff by (simp add: m_def algebra_simps)
  with k l have small: "\<bar>of_int m * (pi / 3)\<bar> < 0.6" by linarith
  from m have "1 \<le> \<bar>m\<bar>" by simp
  then have "1 \<le> \<bar>(of_int m :: real)\<bar>" by linarith
  then have "1 * (pi / 3) \<le> \<bar>(of_int m :: real)\<bar> * (pi / 3)"
    by (intro mult_right_mono) simp_all
  then have "pi / 3 \<le> \<bar>of_int m * (pi / 3)\<bar>"
    by (simp add: abs_mult)
  with small have "pi < 1.8" by simp
  with pi_ge_two show False by simp
qed

lemma isFocus_zero: "isFocus (Fin 0)"
  by (simp add: isFocus_def normalizedAngle_def Math_PI_def trunc_def)

lemma not_isFocus_pi: "\<not> isFocus (Fin pi)"
proof
  assume "isFocus (Fin pi)"
  moreover have "pi - 0 = of_int 3 * (pi / 3)" by simp
  ultimately show False
    using isFocus_zero focus_apart [of pi 0 3] by simp
qed

text \<open>With four texts at progress 0, the first text has angle 0 and is in focus, and the
  last has angle \<open>\<pi>\<close> and is not.\<close>

lemma focus_four_at_start:
  "currentAngle 4 0 0 = Fin 0 \<and> isFocus (currentAngle 4 0 0) \<and>
   currentAngle 4 0 3 = Fin pi \<and> \<not> isFocus (currentAngle 4 0 3)"
  by (simp add: currentAngle_fin isFocus_zero not_isFocus_pi)

subsection \<open>The preloader\<close>

lemma webp_path_includes: "str_includes webp_path ''.webp''"
  by (simp add: webp_path_def)

lemma paths_differ: "webp_path \<noteq> jpg_path"
  by (simp add: webp_path_def jpg_path_def)

lemma image_loads_apply: "image_loads (applyBackgroundImage b path) = []"
  by (simp add: applyBackgroundImage_def)

lemma requested_apply: "requested (applyBackgroundImage b path) = []"
  by (simp add: applyBackgroundImage_def)

lemma image_loads_fallback: "image_loads (loadFallbackImage b path) = [path]"
  by (simp add: loadFallbackImage_def image_loads_apply split: outcome.split)

text \<open>When the legacy path is chosen directly and its load fails, the promise is
  rejected.\<close>

lemma direct_legacy_failure_rejected:
  "protocol b \<noteq> ''file:'' \<Longrightarrow> \<not> webp_decodes b \<Longrightarrow> image_result b jpg_path = Errored \<Longrightarrow>
   returned (aggressivePreloadImages b) = Rejected False"
  by (simp add: aggressivePreloadImages_def Let_def)

text \<open>When the modern path was chosen and its load fails, the promise is neither resolved
  nor rejected, whatever becomes of the fallback load.\<close>

lemma fallback_leaves_pending:
  "protocol b \<noteq> ''file:'' \<Longrightarrow> webp_decodes b \<Longrightarrow> image_result b webp_path = Errored \<Longrightarrow>
   returned (aggressivePreloadImages b) = Pending"
  using webp_path_includes by (simp add: aggressivePreloadImages_def Let_def)

subsection \<open>Rounding to a double\<close>

lemma pow2_powr: "pow2 e = 2 powr of_int e"
  by (simp add: pow2_def powr_realpow [symmetric] powr_minus divide_inverse)

lemma pow2_pos: "0 < pow2 e"
  by (simp add: pow2_powr)

lemma pow2_mono: "a \<le> b \<Longrightarrow> pow2 a \<le> pow2 b"
  by (simp add: pow2_powr)

lemma pow2_half: "pow2 e / 2 = pow2 (e - 1)"
  by (simp add: pow2_powr powr_diff)

lemma round_half_even_close: "\<bar>of_int (round_half_even m) - m\<bar> \<le> 1 / 2"
  unfolding round_half_even_def Let_def by (auto; linarith)

lemma round_half_even_nonneg: "0 \<le> m \<Longrightarrow> 0 \<le> round_half_even m"
  unfolding round_half_even_def Let_def by (auto; linarith?)

lemma round_half_even_nonpos: "m \<le> 0 \<Longrightarrow> round_half_even m \<le> 0"
  unfolding round_half_even_def Let_def by (auto; linarith?)

lemma floor_log2_eq:
  assumes "pow2 e \<le> x" and "x < pow2 (e + 1)"
  shows "\<lfloor>log 2 x\<rfloor> = e"
proof -
  have x: "0 < x" using assms(1) pow2_pos [of e] by linarith
  have "of_int e \<le> log 2 x"
    using assms(1) x by (simp add: pow2_powr le_log_iff)
  moreover have "log 2 x < of_int e + 1"
    using assms(2) x by (simp add: pow2_powr log_less_iff add.commute)
  ultimately show ?thesis by linarith
qed

lemma scale_abs:
  fixes q r x :: real
  assumes "0 < q"
  shows "q * \<bar>r - x / q\<bar> = \<bar>q * r - x\<bar>"
proof -
  have "q * r - x = q * (r - x / q)" using assms by (simp add: field_simps)
  then have "\<bar>q * r - x\<bar> = \<bar>q\<bar> * \<bar>r - x / q\<bar>" by (simp only: abs_mult)
  then show ?thesis using assms by simp
qed

lemma exponent_eq:
  assumes "pow2 e \<le> \<bar>x\<bar>" and "\<bar>x\<bar> < pow2 (e + 1)" and "- 1022 \<le> e"
  shows "exponent x = e"
  using floor_log2_eq [OF assms(1,2)] assms(3) by (simp add: exponent_def)

text \<open>The double of a number whose binary exponent is known.\<close>

lemma to_double_eval:
  assumes lo: "pow2 e \<le> \<bar>x\<bar>" and hi: "\<bar>x\<bar> < pow2 (e + 1)"
    and e: "- 1022 \<le> e" "e \<le> 1022"
  shows "to_double x = Fin (pow2 (e - 52) * of_int (round_half_even (x / pow2 (e - 52))))"
proof -
  let ?q = "pow2 (e - 52)"
  let ?y = "?q * of_int (round_half_even (x / ?q))"
  have q: "0 < ?q" by (rule pow2_pos)
  have x0: "x \<noteq> 0" using lo pow2_pos [of e] by auto
  have ex: "exponent x = e" using lo hi e(1) by (rule exponent_eq)
  have "\<bar>of_int (round_half_even (x / ?q)) - x / ?q\<bar> \<le> 1 / 2"
    by (rule round_half_even_close)
  then have "?q * \<bar>of_int (round_half_even (x / ?q)) - x / ?q\<bar> \<le> ?q * (1 / 2)"
    using q by (simp only: mult_le_cancel_left_pos)
  moreover have "?q * \<bar>of_int (round_half_even (x / ?q)) - x / ?q\<bar> = \<bar>?y - x\<bar>"
    using q by (rule scale_abs)
  ultimately have close: "\<bar>?y - x\<bar> \<le> ?q / 2" by simp
  have "?q \<le> pow2 (e + 1)" by (rule pow2_mono) simp
  with close hi have "\<bar>?y\<bar> < 2 * pow2 (e + 1)" using q by linarith
  also have "2 * pow2 (e + 1) = pow2 (e + 2)"
    by (simp add: pow2_powr powr_add)
  also have "pow2 (e + 2) \<le> pow2 1024" using e(2) by (intro pow2_mono) simp
  finally have "\<not> pow2 1024 \<le> \<bar>?y\<bar>" by simp
  then show ?thesis using x0 ex by (simp add: to_double_def Let_def)
qed

text \<open>Rounding a number of magnitude at most 32 gives a finite double of the same sign
  within \<open>pow2 (- 48)\<close> of it.\<close>

lemma to_double_close:
  assumes "\<bar>x\<bar> \<le> 32"
  shows "\<exists>y. to_double x = Fin y \<and> \<bar>y - x\<bar> \<le> pow2 (- 48) \<and>
     (0 \<le> x \<longrightarrow> 0 \<le> y) \<and> (x \<le> 0 \<longrightarrow> y \<le> 0)"
proof (cases "x = 0")
  case True
  then show ?thesis using pow2_pos [of "- 48"] by (simp add: to_double_def)
next
  case False
  let ?q = "pow2 (exponent x - 52)"
  let ?y = "?q * of_int (round_half_even (x / ?q))"
  have q: "0 < ?q" by (rule pow2_pos)
  have "log 2 \<bar>x\<bar> \<le> log 2 32"
    using assms False by (simp del: log_le_cancel_iff add: log_le_cancel_iff)
  also have "log 2 32 = 5"
  proof -
    have "(32::real) = 2 ^ 5" by simp
    then show ?thesis by (simp only: log_pow_cancel)
  qed
  finally have "\<lfloor>log 2 \<bar>x\<bar>\<rfloor> \<le> 5" by linarith
  then have "exponent x \<le> 5" by (simp add: exponent_def)
  then have q47: "?q \<le> pow2 (- 47)" by (intro pow2_mono) simp
  have "\<bar>of_int (round_half_even (x / ?q)) - x / ?q\<bar> \<le> 1 / 2"
    by (rule round_half_even_close)
  then have "?q * \<bar>of_int (round_half_even (x / ?q)) - x / ?q\<bar> \<le> ?q * (1 / 2)"
    using q by (simp only: mult_le_cancel_left_pos)
  moreover have "?q * \<bar>of_int (round_half_even (x / ?q)) - x / ?q\<bar> = \<bar>?y - x\<bar>"
    using q by (rule scale_abs)
  ultimately have "\<bar>?y - x\<bar> \<le> ?q / 2" by simp
  also have "?q / 2 \<le> pow2 (- 47) / 2" using q47 by simp
  also have "pow2 (- 47) / 2 = pow2 (- 48)" by (simp add: pow2_half)
  finally have close: "\<bar>?y - x\<bar> \<le> pow2 (- 48)" .
  have "pow2 (- 48) \<le> pow2 0" by (intro pow2_mono) simp
  then have "pow2 (- 48) \<le> 1" by (simp add: pow2_def)
  with close assms have "\<bar>?y\<bar> \<le> 33" by linarith
  moreover have "(33::real) < pow2 1024"
  proof -
    have "(33::real) < pow2 6" by (simp add: pow2_def)
    also have "pow2 6 \<le> pow2 1024" by (intro pow2_mono) simp
    finally show ?thesis .
  qed
  ultimately have fin: "\<not> pow2 1024 \<le> \<bar>?y\<bar>" by linarith
  have pos: "0 \<le> x \<longrightarrow> 0 \<le> ?y"
    using q round_half_even_nonneg [of "x / ?q"] by (simp add: zero_le_mult_iff)
  have neg: "x \<le> 0 \<longrightarrow> ?y \<le> 0"
    using q round_half_even_nonpos [of "x / ?q"]
    by (simp add: mult_le_0_iff divide_le_0_iff)
  from fin False have "to_double x = Fin ?y" by (simp add: to_double_def Let_def)
  with close pos neg show ?thesis by blast
qed

subsection \<open>Doubles that the projector meets\<close>

lemma to_double_zero: "to_double 0 = Fin 0"
  by (simp add: to_double_def)

lemma to_double_one: "to_double 1 = Fin 1"
  using to_double_eval [of 0 1] by (simp add: pow2_def round_half_even_def)

lemma to_double_two: "to_double 2 = Fin 2"
  using to_double_eval [of 1 2] by (simp add: pow2_def round_half_even_def)

lemma to_double_three: "to_double 3 = Fin 3"
  using to_double_eval [of 1 3] by (simp add: pow2_def round_half_even_def)

lemma to_double_half: "to_double (1 / 2) = Fin (1 / 2)"
  using to_double_eval [of "- 1" "1 / 2"] by (simp add: pow2_def round_half_even_def)

lemma to_double_third: "to_double (1 / 3) = Fin (6004799503160661 / 2 ^ 54)"
  using to_double_eval [of "- 2" "1 / 3"] by (simp add: pow2_def round_half_even_def)

lemma to_double_two_thirds: "to_double (2 / 3) = Fin (6004799503160661 / 2 ^ 53)"
  using to_double_eval [of "- 1" "2 / 3"] by (simp add: pow2_def round_half_even_def)

lemma to_double_pi: "to_double pi_d = Fin pi_d"
  using to_double_eval [of 1 pi_d] by (simp add: pow2_def round_half_even_def pi_d_def)

lemma to_double_pi_half: "to_double (1 / 2 * pi_d) = Fin (pi_d / 2)"
  using to_double_eval [of 0 "1 / 2 * pi_d"]
  by (simp add: pow2_def round_half_even_def pi_d_def)

lemma to_double_pi_half': "to_double (pi_d / 2) = Fin (pi_d / 2)"
  using to_double_pi_half by simp

lemma to_double_pi_third:
  "to_double (6004799503160661 / 2 ^ 54 * pi_d) = Fin (4716158501352293 / 2 ^ 52)"
  using to_double_eval [of 0 "6004799503160661 / 2 ^ 54 * pi_d"]
  by (simp add: pow2_def round_half_even_def pi_d_def)

lemma to_double_pi_third': "to_double (4716158501352293 / 2 ^ 52) = Fin (4716158501352293 / 2 ^ 52)"
  using to_double_eval [of 0 "4716158501352293 / 2 ^ 52"]
  by (simp add: pow2_def round_half_even_def)

lemma to_double_pi_two_thirds:
  "to_double (6004799503160661 / 2 ^ 53 * pi_d) = Fin (4716158501352293 / 2 ^ 51)"
  using to_double_eval [of 1 "6004799503160661 / 2 ^ 53 * pi_d"]
  by (simp add: pow2_def round_half_even_def pi_d_def)

lemma to_double_pi_two_thirds':
  "to_double (4716158501352293 / 2 ^ 51) = Fin (4716158501352293 / 2 ^ 51)"
  using to_double_eval [of 1 "4716158501352293 / 2 ^ 51"]
  by (simp add: pow2_def round_half_even_def)

lemma to_double_two_pi: "to_double (pi_d * 2) = Fin (2 * pi_d)"
  using to_double_eval [of 2 "pi_d * 2"] by (simp add: pow2_def round_half_even_def pi_d_def)

lemma to_double_upper_threshold:
  "to_double (2 * pi_d - 5404319552844595 / 2 ^ 54) = Fin (6736467779975653 / 2 ^ 50)"
  using to_double_eval [of 2 "2 * pi_d - 5404319552844595 / 2 ^ 54"]
  by (simp add: pow2_def round_half_even_def pi_d_def)

subsection \<open>The angles in double precision\<close>

lemma pi_d_bounds: "3 < pi_d" "pi_d < 4"
  by (simp_all add: pi_d_def)

lemma texts_minus_one:
  assumes "2 \<le> n" and "n \<le> 4"
  shows "d_sub (num n) (Fin 1) = Fin (real n - 1)"
proof -
  from assms have "n = 2 \<or> n = 3 \<or> n = 4" by arith
  then show ?thesis
    by (auto simp add: d_sub_def num_def to_double_one to_double_two to_double_three)
qed

lemma small_cases:
  fixes n index :: nat
  assumes "2 \<le> n" and "n \<le> 4" and "index < n"
  shows "(n = 2 \<and> (index = 0 \<or> index = 1)) \<or>
     (n = 3 \<and> (index = 0 \<or> index = 1 \<or> index = 2)) \<or>
     (n = 4 \<and> (index = 0 \<or> index = 1 \<or> index = 2 \<or> index = 3))"
  using assms by arith

text \<open>The base angles of two, three and four texts; each is a double, so rounding it
  again changes nothing.\<close>

lemma baseAngle_d_values:
  "baseAngle_d 2 0 = Fin 0" "baseAngle_d 2 1 = Fin pi_d"
  "baseAngle_d 3 0 = Fin 0" "baseAngle_d 3 1 = Fin (pi_d / 2)" "baseAngle_d 3 2 = Fin pi_d"
  "baseAngle_d 4 0 = Fin 0" "baseAngle_d 4 1 = Fin (4716158501352293 / 2 ^ 52)"
  "baseAngle_d 4 2 = Fin (4716158501352293 / 2 ^ 51)" "baseAngle_d 4 3 = Fin pi_d"
  using to_double_zero to_double_one to_double_two to_double_three to_double_half
    to_double_third to_double_two_thirds to_double_pi to_double_pi_half'
    to_double_pi_third to_double_pi_two_thirds
  by (simp_all add: baseAngle_d_def d_sub_def num_def Math_PI_d_def)

lemma baseAngle_d_fixed:
  assumes "2 \<le> n" and "n \<le> 4" and "index < n"
  shows "\<exists>b. baseAngle_d n index = Fin b \<and> to_double b = Fin b"
proof -
  note v = baseAngle_d_values
  from small_cases [OF assms] consider
      "index = 0"
    | "n = 2" "index = 1" | "n = 3" "index = 2" | "n = 4" "index = 3"
    | "n = 3" "index = 1" | "n = 4" "index = 1" | "n = 4" "index = 2"
    by blast
  then show ?thesis
  proof cases
    case 1
    from small_cases [OF assms] have "n = 2 \<or> n = 3 \<or> n = 4" by blast
    with 1 v(1,3,6) have "baseAngle_d n index = Fin 0" by blast
    with to_double_zero show ?thesis by blast
  next
    case 2
    with v(2) to_double_pi show ?thesis by blast
  next
    case 3
    with v(5) to_double_pi show ?thesis by blast
  next
    case 4
    with v(9) to_double_pi show ?thesis by blast
  next
    case 5
    with v(4) to_double_pi_half' show ?thesis by blast
  next
    case 6
    with v(7) to_double_pi_third' show ?thesis by blast
  next
    case 7
    with v(8) to_double_pi_two_thirds' show ?thesis by blast
  qed
qed

lemma baseAngle_d_ends:
  assumes "2 \<le> n" and "n \<le> 4"
  shows "baseAngle_d n 0 = Fin 0" and "baseAngle_d n (n - 1) = Fin pi_d"
proof -
  from assms have n: "n = 2 \<or> n = 3 \<or> n = 4" by arith
  show "baseAngle_d n 0 = Fin 0"
    using n to_double_zero to_double_one to_double_two to_double_three
    by (auto simp add: baseAngle_d_def d_sub_def num_def Math_PI_d_def)
  show "baseAngle_d n (n - 1) = Fin pi_d"
    using n to_double_one to_double_two to_double_three to_double_pi
    by (auto simp add: baseAngle_d_def d_sub_def num_def Math_PI_d_def)
qed

lemma rotation_at_start:
  assumes "2 \<le> n" and "n \<le> 4"
  shows "d_div (d_mul (rotationProgress_d n 0) Math_PI_d) (d_sub (num n) (Fin 1)) = Fin 0"
  using assms
  by (simp add: rotationProgress_d_def texts_minus_one Math_PI_d_def to_double_zero)

lemma currentAngle_d_start:
  assumes "2 \<le> n" and "n \<le> 4" and "index < n"
  shows "currentAngle_d n 0 index = baseAngle_d n index"
proof -
  obtain b where b: "baseAngle_d n index = Fin b" "to_double b = Fin b"
    using baseAngle_d_fixed [OF assms] by blast
  then show ?thesis
    using rotation_at_start [OF assms(1,2)]
    by (simp add: currentAngle_d_def d_sub_def)
qed

lemma initialPose_d_eq_poseAt_d: "initialPose_d E n r index = poseAt_d E r (baseAngle_d n index)"
  by (simp add: initialPose_d_def poseAt_d_def baseAngle_d_def Let_def)

lemma abs_diff_scaled:
  fixes x y c :: real
  assumes "0 < c"
  shows "\<bar>x * c - y * c\<bar> = \<bar>x - y\<bar> * c"
proof -
  have "x * c - y * c = (x - y) * c" by (simp add: algebra_simps)
  then have "\<bar>x * c - y * c\<bar> = \<bar>x - y\<bar> * \<bar>c\<bar>" by (simp only: abs_mult)
  then show ?thesis using assms by simp
qed

text \<open>The error of the current angle: six roundings of numbers below 32.\<close>

lemma currentAngle_d_close:
  assumes n: "2 \<le> n" "n \<le> 4" and i: "index < n" and p: "0 \<le> progress" "progress \<le> 1"
  shows "\<exists>a. currentAngle_d n progress index = Fin a \<and>
     \<bar>a - (real index / real (n - 1) * pi_d - progress * pi_d)\<bar> \<le> pow2 (- 44)"
proof -
  define k where "k = real n - 1"
  define eps where "eps = pow2 (- 48)"
  have k: "1 \<le> k" "k \<le> 3" using n by (simp_all add: k_def)
  have kn: "real (n - 1) = k" using n by (simp add: k_def of_nat_diff)
  have eps: "0 < eps" "eps \<le> 1 / 1000"
    unfolding eps_def by (simp_all add: pow2_def)
  have eps16: "16 * eps = pow2 (- 44)"
    by (simp add: eps_def pow2_def)
  have c: "0 < pi_d" "pi_d \<le> 4" using pi_d_bounds by simp_all
  have km: "d_sub (num n) (Fin 1) = Fin k"
    using n by (simp add: texts_minus_one k_def)
  then have km': "d_sub (Fin (real n)) (Fin 1) = Fin k"
    by (simp add: num_def)
  \<comment> \<open>\<open>index / (totalTexts - 1)\<close>\<close>
  define X where "X = real index / k"
  have X: "0 \<le> X" "X \<le> 1" using i k by (simp_all add: X_def k_def)
  then have "\<bar>X\<bar> \<le> 32" by linarith
  from to_double_close [OF this]
  obtain t where t: "to_double X = Fin t" "\<bar>t - X\<bar> \<le> eps"
    unfolding eps_def by blast
  have tb: "\<bar>t\<bar> \<le> 2" using t(2) X eps by linarith
  \<comment> \<open>\<open>baseAngle\<close>\<close>
  define T where "T = t * pi_d"
  define Y where "Y = X * pi_d"
  have "\<bar>t\<bar> * \<bar>pi_d\<bar> \<le> 2 * 4"
    using tb c by (intro mult_mono) simp_all
  then have "\<bar>T\<bar> \<le> 32" unfolding T_def abs_mult by linarith
  from to_double_close [OF this]
  obtain b where b: "to_double T = Fin b" "\<bar>b - T\<bar> \<le> eps"
    unfolding eps_def by blast
  have "\<bar>T - Y\<bar> = \<bar>t - X\<bar> * pi_d"
    unfolding T_def Y_def using c(1) by (rule abs_diff_scaled)
  also have "\<dots> \<le> eps * 4"
    using t(2) c by (intro mult_mono) simp_all
  finally have TY: "\<bar>T - Y\<bar> \<le> 4 * eps" by simp
  with b(2) have b_err: "\<bar>b - Y\<bar> \<le> 5 * eps" by linarith
  have "\<bar>X\<bar> * \<bar>pi_d\<bar> \<le> 1 * 4"
    using X c by (intro mult_mono) simp_all
  then have "\<bar>Y\<bar> \<le> 4" unfolding Y_def abs_mult by simp
  with b_err eps have bb: "\<bar>b\<bar> \<le> 5" by linarith
  \<comment> \<open>\<open>rotationProgress\<close>\<close>
  define Q where "Q = progress * k"
  have "progress * k \<le> 1 * 3" using p k by (intro mult_mono) simp_all
  then have Q: "0 \<le> Q" "Q \<le> 3" using p k by (simp_all add: Q_def)
  then have "\<bar>Q\<bar> \<le> 32" by linarith
  from to_double_close [OF this]
  obtain rp where rp: "to_double Q = Fin rp" "\<bar>rp - Q\<bar> \<le> eps"
    unfolding eps_def by blast
  have rpb: "\<bar>rp\<bar> \<le> 4" using rp(2) Q eps by linarith
  \<comment> \<open>\<open>rotationProgress * Math.PI\<close>\<close>
  define R where "R = rp * pi_d"
  define S where "S = Q * pi_d"
  have "\<bar>rp\<bar> * \<bar>pi_d\<bar> \<le> 4 * 4"
    using rpb c by (intro mult_mono) simp_all
  then have "\<bar>R\<bar> \<le> 32" unfolding R_def abs_mult by linarith
  from to_double_close [OF this]
  obtain m where m: "to_double R = Fin m" "\<bar>m - R\<bar> \<le> eps"
    unfolding eps_def by blast
  have "\<bar>R - S\<bar> = \<bar>rp - Q\<bar> * pi_d"
    unfolding R_def S_def using c(1) by (rule abs_diff_scaled)
  also have "\<dots> \<le> eps * 4"
    using rp(2) c by (intro mult_mono) simp_all
  finally have RS: "\<bar>R - S\<bar> \<le> 4 * eps" by simp
  with m(2) have m_err: "\<bar>m - S\<bar> \<le> 5 * eps" by linarith
  have "\<bar>Q\<bar> * \<bar>pi_d\<bar> \<le> 3 * 4"
    using Q c by (intro mult_mono) simp_all
  then have "\<bar>S\<bar> \<le> 12" unfolding S_def abs_mult by simp
  with m_err eps have mb: "\<bar>m\<bar> \<le> 13" by linarith
  \<comment> \<open>the quotient by \<open>totalTexts - 1\<close>\<close>
  define M where "M = m / k"
  define P where "P = progress * pi_d"
  have shrink: "\<bar>z / k\<bar> \<le> \<bar>z\<bar>" for z :: real
  proof -
    have "\<bar>z\<bar> / k \<le> \<bar>z\<bar> / 1" using k by (intro divide_left_mono) simp_all
    then show ?thesis using k by simp
  qed
  have "\<bar>M\<bar> \<le> \<bar>m\<bar>" unfolding M_def by (rule shrink)
  with mb have "\<bar>M\<bar> \<le> 32" by linarith
  from to_double_close [OF this]
  obtain d where d: "to_double M = Fin d" "\<bar>d - M\<bar> \<le> eps"
    unfolding eps_def by blast
  have "M - P = (m - S) / k"
    using k by (simp add: M_def P_def S_def Q_def field_simps)
  then have "\<bar>M - P\<bar> \<le> \<bar>m - S\<bar>" using shrink [of "m - S"] by simp
  with d(2) m_err have d_err: "\<bar>d - P\<bar> \<le> 6 * eps" by linarith
  have "\<bar>progress\<bar> * \<bar>pi_d\<bar> \<le> 1 * 4"
    using p c by (intro mult_mono) simp_all
  then have "\<bar>P\<bar> \<le> 4" unfolding P_def abs_mult by simp
  with d_err eps have db: "\<bar>d\<bar> \<le> 5" by linarith
  \<comment> \<open>\<open>currentAngle\<close>\<close>
  from bb db have "\<bar>b + - d\<bar> \<le> 32" by linarith
  from to_double_close [OF this]
  obtain a where a: "to_double (b + - d) = Fin a" "\<bar>a - (b + - d)\<bar> \<le> eps"
    unfolding eps_def by blast
  have k0: "k \<noteq> 0" using k by simp
  have "baseAngle_d n index = Fin b"
    using k0 t(1) b(1)
    by (simp add: baseAngle_d_def km' num_def Math_PI_d_def X_def T_def)
  moreover have "rotationProgress_d n progress = Fin rp"
    using rp(1) by (simp add: rotationProgress_d_def km' num_def Q_def)
  moreover have "d_div (d_mul (Fin rp) Math_PI_d) (Fin k) = Fin d"
    using k0 m(1) d(1) by (simp add: Math_PI_d_def R_def M_def)
  ultimately have cur: "currentAngle_d n progress index = Fin a"
    using a(1) by (simp add: currentAngle_d_def km) (simp add: d_sub_def)
  from a(2) b_err d_err eps(1)
  have "\<bar>a - (Y - P)\<bar> \<le> 16 * eps" by linarith
  then have "\<bar>a - (real index / k * pi_d - progress * pi_d)\<bar> \<le> pow2 (- 44)"
    unfolding Y_def P_def X_def eps16 .
  then have "\<bar>a - (real index / real (n - 1) * pi_d - progress * pi_d)\<bar> \<le> pow2 (- 44)"
    by (simp only: kn [symmetric])
  with cur show ?thesis by blast
qed

subsection \<open>The focus test in double precision\<close>

lemma rem_upper:
  fixes x y :: real
  assumes "0 < y"
  shows "x - y * of_int (trunc (x / y)) < y"
proof (cases "0 \<le> x")
  case True
  then show ?thesis by (rule rem_nonneg(2) [OF assms])
next
  case False
  then have "x / y < 0" using assms by (simp add: divide_neg_pos)
  then have t: "trunc (x / y) = \<lceil>x / y\<rceil>" by (simp add: trunc_def)
  have "x / y \<le> of_int \<lceil>x / y\<rceil>" by (rule le_of_int_ceiling)
  then have "y * (x / y) \<le> y * of_int \<lceil>x / y\<rceil>"
    using assms by (simp only: mult_le_cancel_left_pos)
  then have "x \<le> y * of_int \<lceil>x / y\<rceil>" using assms by simp
  then show ?thesis using t assms by simp
qed

text \<open>An angle in focus is within 0.3, and one rounding, of a whole number of turns.\<close>

lemma isFocus_d_near:
  assumes "isFocus_d (Fin a)"
  shows "\<exists>k::int. \<bar>a - 2 * pi_d * of_int k\<bar> < 0.3 + pow2 (- 48)"
proof -
  define A where "A = 2 * pi_d"
  define eps where "eps = pow2 (- 48)"
  have A: "0 < A" "A < 8" using pi_d_bounds by (simp_all add: A_def)
  define r1 where "r1 = a - A * of_int (trunc (a / A))"
  have r1: "- A < r1" "r1 < A"
    unfolding r1_def using rem_lower [OF A(1)] rem_upper [OF A(1)] by simp_all
  then have r1A: "\<bar>r1 + A\<bar> \<le> 32" "0 \<le> r1 + A" using A by linarith+
  from to_double_close [OF r1A(1)] r1A(2)
  obtain s where s: "to_double (r1 + A) = Fin s" "\<bar>s - (r1 + A)\<bar> \<le> eps" "0 \<le> s"
    unfolding eps_def by blast
  define w where "w = s - A * of_int (trunc (s / A))"
  have w: "0 \<le> w" "w < A"
    unfolding w_def using rem_nonneg [OF A(1) s(3)] by simp_all
  define k where "k = trunc (a / A) - 1 + trunc (s / A)"
  have weq: "w = a - A * of_int k + (s - (r1 + A))"
    by (simp add: w_def k_def r1_def algebra_simps)
  have twopi: "d_mul Math_PI_d (Fin 2) = Fin A"
    using to_double_two_pi by (simp add: Math_PI_d_def A_def)
  have norm: "normalizedAngle_d (Fin a) = Fin w"
    using A(1) by (simp add: normalizedAngle_d_def twopi r1_def [symmetric] s(1) w_def)
  have upper: "d_sub (d_mul Math_PI_d (Fin 2)) literal_0_3 = Fin (6736467779975653 / 2 ^ 50)"
    using to_double_upper_threshold by (simp add: twopi d_sub_def literal_0_3_def A_def)
  from assms have "js_lt (Fin w) literal_0_3 \<or> js_lt (Fin (6736467779975653 / 2 ^ 50)) (Fin w)"
    by (simp only: isFocus_d_def norm upper js_gt_def)
  then have "w < 5404319552844595 / 2 ^ 54 \<or> 6736467779975653 / 2 ^ 50 < w"
    by (simp add: literal_0_3_def)
  then show ?thesis
  proof
    assume "w < 5404319552844595 / 2 ^ 54"
    then have "w < 0.3" by simp
    with w(1) weq s(2) have "\<bar>a - A * of_int k\<bar> < 0.3 + eps" by linarith
    then show ?thesis unfolding A_def eps_def by blast
  next
    assume h: "6736467779975653 / 2 ^ 50 < w"
    have "A - 6736467779975653 / 2 ^ 50 < 0.3" by (simp add: A_def pi_d_def)
    with h have "A - 0.3 < w" by linarith
    moreover have "a - A * of_int (k + 1) = a - A * of_int k - A"
      by (simp add: algebra_simps)
    ultimately have "\<bar>a - A * of_int (k + 1)\<bar> < 0.3 + eps"
      using w(2) weq s(2) by linarith
    then show ?thesis unfolding A_def eps_def by blast
  qed
qed

text \<open>Two of the four angles are never both in focus, for a progress in \<open>[0, 1]\<close>.\<close>

lemma focus_pair_four_d:
  assumes p: "0 \<le> progress" "progress \<le> 1" and ij: "i < 4" "j < 4" "i \<noteq> j"
  shows "\<not> (isFocus_d (currentAngle_d 4 progress i) \<and> isFocus_d (currentAngle_d 4 progress j))"
proof
  assume h: "isFocus_d (currentAngle_d 4 progress i) \<and> isFocus_d (currentAngle_d 4 progress j)"
  define eps where "eps = pow2 (- 48)"
  have eps: "0 < eps" "eps \<le> 1 / 1000" "pow2 (- 44) = 16 * eps"
    unfolding eps_def by (simp_all add: pow2_def)
  obtain a where a: "currentAngle_d 4 progress i = Fin a"
      "\<bar>a - (real i / 3 * pi_d - progress * pi_d)\<bar> \<le> 16 * eps"
    using currentAngle_d_close [of 4 i progress] p ij(1) eps(3) by auto
  obtain b where b: "currentAngle_d 4 progress j = Fin b"
      "\<bar>b - (real j / 3 * pi_d - progress * pi_d)\<bar> \<le> 16 * eps"
    using currentAngle_d_close [of 4 j progress] p ij(2) eps(3) by auto
  from h a(1) b(1) have fa: "isFocus_d (Fin a)" and fb: "isFocus_d (Fin b)" by simp_all
  obtain k :: int where k: "\<bar>a - 2 * pi_d * of_int k\<bar> < 0.3 + eps"
    using isFocus_d_near [OF fa] unfolding eps_def by blast
  obtain l :: int where l: "\<bar>b - 2 * pi_d * of_int l\<bar> < 0.3 + eps"
    using isFocus_d_near [OF fb] unfolding eps_def by blast
  define m where "m = int i - int j - 6 * (k - l)"
  have m: "m \<noteq> 0" using ij unfolding m_def by presburger
  have "(real i / 3 * pi_d - progress * pi_d - 2 * pi_d * of_int k) -
      (real j / 3 * pi_d - progress * pi_d - 2 * pi_d * of_int l) = of_int m * (pi_d / 3)"
    by (simp add: m_def algebra_simps)
  with a(2) b(2) k l have small: "\<bar>of_int m * (pi_d / 3)\<bar> < 0.6 + 34 * eps" by linarith
  from m have "1 \<le> \<bar>m\<bar>" by simp
  then have "1 \<le> \<bar>(of_int m :: real)\<bar>" by linarith
  then have "1 * (pi_d / 3) \<le> \<bar>(of_int m :: real)\<bar> * (pi_d / 3)"
    using pi_d_bounds by (intro mult_right_mono) simp_all
  then have "pi_d / 3 \<le> \<bar>of_int m * (pi_d / 3)\<bar>"
    using pi_d_bounds by (simp add: abs_mult)
  with small eps(1,2) pi_d_bounds show False by linarith
qed

lemma onUpdate_d_nth:
  assumes "onUpdate_d E c progress p = Inr p'" and "i < length (ani_texts p)"
  shows "ani_texts p' ! i =
     (if i < totalTexts c then updateText_d E c progress (ani_texts p ! i) i
      else ani_texts p ! i)"
  using assms
  by (auto simp add: onUpdate_d_def global_ref_def forEach_nth split: if_splits)

text \<open>With four texts at progress 0 the first text is in focus, in double precision
  too.\<close>

lemma isFocus_d_first_at_start: "isFocus_d (currentAngle_d 4 0 0)"
proof -
  have h: "(2::nat) \<le> 4" "(4::nat) \<le> 4" by simp_all
  have a: "currentAngle_d 4 0 0 = Fin 0"
    using currentAngle_d_start [OF h, of 0] baseAngle_d_values(6) by simp
  have twopi: "d_mul Math_PI_d (Fin 2) = Fin (2 * pi_d)"
    using to_double_two_pi by (simp add: Math_PI_d_def)
  have s: "to_double (0 + 2 * pi_d) = Fin (2 * pi_d)"
    using to_double_two_pi by (simp add: mult.commute)
  have pos: "2 * pi_d \<noteq> 0" using pi_d_bounds by simp
  have "normalizedAngle_d (Fin 0) = Fin 0"
    unfolding normalizedAngle_d_def twopi using pos s by (simp add: trunc_def)
  then show ?thesis
    unfolding a isFocus_d_def by (simp add: literal_0_3_def)
qed

text \<open>Where every intermediate result is a double, the two models agree: with a single
  text the angle is \<open>NaN\<close> in double precision as well, and with four texts at progress 1
  the angle of the last text is 0.\<close>

lemma currentAngle_d_single: "currentAngle_d (Suc 0) progress 0 = NaN"
  using to_double_zero
  by (simp add: currentAngle_d_def baseAngle_d_def rotationProgress_d_def num_def d_sub_def)

lemma currentAngle_d_last_at_end: "currentAngle_d 4 1 3 = Fin 0"
proof -
  have three: "d_sub (num 4) (Fin 1) = Fin 3"
    using to_double_three by (simp add: d_sub_def num_def)
  have rp: "rotationProgress_d 4 1 = Fin 3"
    using to_double_three by (simp add: rotationProgress_d_def three)
  have m: "to_double (3 * pi_d) = Fin (3 * pi_d)"
    using to_double_eval [of 3 "3 * pi_d"] by (simp add: pow2_def round_half_even_def pi_d_def)
  have q: "d_div (d_mul (Fin 3) Math_PI_d) (Fin 3) = Fin pi_d"
    using m to_double_pi by (simp add: Math_PI_d_def)
  show ?thesis
    unfolding currentAngle_d_def baseAngle_d_values(9) rp three q
    using to_double_zero by (simp add: d_sub_def)
qed

text \<open>Setup keeps at most four texts.\<close>

lemma setup_at_most_four:
  assumes "initPointAnimation p = Inr p'" and "c \<in> set (triggers p')"
  shows "c \<in> set (triggers p) \<or> (1 \<le> totalTexts c \<and> totalTexts c \<le> 4)"
  using assms
  by (auto simp add: initPointAnimation_def console_error_def gsap_utils_toArray_def
      global_ref_def initializePointTexts_def ScrollTrigger_create_def Let_def Suc_le_eq
      split: if_splits)

text \<open>Below the normal range the spacing of the doubles is fixed.\<close>

lemma to_double_subnormal:
  assumes "x \<noteq> 0" and "\<bar>x\<bar> < pow2 (- 1022)"
  shows "to_double x = Fin (pow2 (- 1074) * of_int (round_half_even (x / pow2 (- 1074))))"
proof -
  let ?q = "pow2 (- 1074)"
  let ?y = "?q * of_int (round_half_even (x / ?q))"
  have q: "0 < ?q" by (rule pow2_pos)
  have "log 2 \<bar>x\<bar> < of_int (- 1022)"
    using assms by (simp add: pow2_powr log_less_iff)
  then have "\<lfloor>log 2 \<bar>x\<bar>\<rfloor> < - 1022" by linarith
  then have ex: "exponent x = - 1022" by (simp add: exponent_def)
  have "\<bar>of_int (round_half_even (x / ?q)) - x / ?q\<bar> \<le> 1 / 2"
    by (rule round_half_even_close)
  then have "?q * \<bar>of_int (round_half_even (x / ?q)) - x / ?q\<bar> \<le> ?q * (1 / 2)"
    using q by (simp only: mult_le_cancel_left_pos)
  moreover have "?q * \<bar>of_int (round_half_even (x / ?q)) - x / ?q\<bar> = \<bar>?y - x\<bar>"
    using q by (rule scale_abs)
  ultimately have close: "\<bar>?y - x\<bar> \<le> ?q / 2" by simp
  have "?q \<le> pow2 0" by (rule pow2_mono) simp
  moreover have "pow2 (- 1022) \<le> pow2 0" by (rule pow2_mono) simp
  moreover have "pow2 0 = 1" by (simp add: pow2_def)
  ultimately have "\<bar>?y\<bar> < 2" using close assms(2) q by linarith
  moreover have "(2::real) \<le> pow2 1024"
  proof -
    have "(2::real) = pow2 1" by (simp add: pow2_def)
    also have "\<dots> \<le> pow2 1024" by (rule pow2_mono) simp
    finally show ?thesis .
  qed
  ultimately have "\<not> pow2 1024 \<le> \<bar>?y\<bar>" by linarith
  then show ?thesis using assms(1) ex by (simp add: to_double_def Let_def)
qed

text \<open>The rounding at its limits: the least subnormal number is a double, half of it
  rounds to zero, and twice \<open>2 ^ 1023\<close> overflows.\<close>

lemma to_double_limits:
  "to_double (pow2 (- 1074)) = Fin (pow2 (- 1074))"
  "to_double (pow2 (- 1075)) = Fin 0"
  "d_mul (Fin (pow2 1023)) (Fin 2) = PosInf"
proof -
  have lt: "pow2 (- 1074) < pow2 (- 1022)" "pow2 (- 1075) < pow2 (- 1022)"
    by (simp_all add: pow2_powr)
  have half: "pow2 (- 1075) / pow2 (- 1074) = 1 / 2"
    by (simp add: pow2_powr powr_diff [symmetric])
  show "to_double (pow2 (- 1074)) = Fin (pow2 (- 1074))"
    using to_double_subnormal [of "pow2 (- 1074)"] pow2_pos [of "- 1074"] lt(1)
    by (simp add: round_half_even_def)
  show "to_double (pow2 (- 1075)) = Fin 0"
    using to_double_subnormal [of "pow2 (- 1075)"] pow2_pos [of "- 1075"] lt(2)
    by (simp add: round_half_even_def half)
  have "to_double (pow2 1024) = PosInf"
  proof -
    have "pow2 1024 \<le> \<bar>pow2 1024\<bar>" by simp
    have e: "exponent (pow2 1024) = 1024"
      using exponent_eq [of 1024 "pow2 1024"] pow2_pos [of 1024]
      by (simp add: pow2_powr)
    show ?thesis
      using pow2_pos [of 1024] pow2_pos [of 972]
      by (simp add: to_double_def e Let_def round_half_even_def)
        (simp add: pow2_def)
  qed
  then show "d_mul (Fin (pow2 1023)) (Fin 2) = PosInf"
    by (simp add: pow2_def)
qed

text \<open>For every finite angle the normalised angle, in double precision, is a number of
  \<open>[0, 2 * Math.PI)\<close>.\<close>

lemma normalizedAngle_d_range:
  "\<exists>w. normalizedAngle_d (Fin a) = Fin w \<and> 0 \<le> w \<and> w < 2 * pi_d"
proof -
  define A where "A = 2 * pi_d"
  have A: "0 < A" "A < 8" using pi_d_bounds by (simp_all add: A_def)
  define r1 where "r1 = a - A * of_int (trunc (a / A))"
  have r1: "- A < r1" "r1 < A"
    unfolding r1_def using rem_lower [OF A(1)] rem_upper [OF A(1)] by simp_all
  then have r1A: "\<bar>r1 + A\<bar> \<le> 32" "0 \<le> r1 + A" using A by linarith+
  from to_double_close [OF r1A(1)] r1A(2)
  obtain s where s: "to_double (r1 + A) = Fin s" "0 \<le> s" by blast
  define w where "w = s - A * of_int (trunc (s / A))"
  have w: "0 \<le> w" "w < A"
    unfolding w_def using rem_nonneg [OF A(1) s(2)] by simp_all
  have twopi: "d_mul Math_PI_d (Fin 2) = Fin A"
    using to_double_two_pi by (simp add: Math_PI_d_def A_def)
  have "normalizedAngle_d (Fin a) = Fin w"
    using A(1) by (simp add: normalizedAngle_d_def twopi r1_def [symmetric] s(1) w_def)
  with w show ?thesis unfolding A_def by blast
qed

lemma focus_d_four_at_start:
  "currentAngle_d 4 0 0 = Fin 0 \<and> isFocus_d (currentAngle_d 4 0 0) \<and>
   currentAngle_d 4 0 3 = Fin pi_d \<and> \<not> isFocus_d (currentAngle_d 4 0 3)"
proof -
  have h: "(2::nat) \<le> 4" "(4::nat) \<le> 4" by simp_all
  have a: "currentAngle_d 4 0 0 = Fin 0"
    using currentAngle_d_start [OF h, of 0] baseAngle_d_values(6) by simp
  have b: "currentAngle_d 4 0 3 = Fin pi_d"
    using currentAngle_d_start [OF h, of 3] baseAngle_d_values(9) by simp
  have "\<not> (isFocus_d (currentAngle_d 4 0 0) \<and> isFocus_d (currentAngle_d 4 0 3))"
    by (rule focus_pair_four_d) simp_all
  with isFocus_d_first_at_start a b show ?thesis by blast
qed

text \<open>With four texts at progress 1, an engine with \<open>Math.sin(0) = 0\<close> and
  \<open>Math.cos(0) = 1\<close> gives the last text the pose of angle 0.\<close>

lemma pose_d_last_at_end:
  assumes "Math_sin E 0 = 0" and "Math_cos E 0 = 1"
  shows "poseAt_d E 120 (currentAngle_d 4 1 3) =
      \<lparr>pose_y = Fin 0, pose_z = Fin 120, pose_rotateX = Fin 0\<rparr>"
    and "poseAt_d E 70 (currentAngle_d 4 1 3) =
      \<lparr>pose_y = Fin 0, pose_z = Fin 70, pose_rotateX = Fin 0\<rparr>"
proof -
  have r: "to_double 120 = Fin 120" "to_double 70 = Fin 70"
    using to_double_eval [of 6 120] to_double_eval [of 6 70]
    by (simp_all add: pow2_def round_half_even_def)
  show "poseAt_d E 120 (currentAngle_d 4 1 3) =
      \<lparr>pose_y = Fin 0, pose_z = Fin 120, pose_rotateX = Fin 0\<rparr>"
    using assms r(1) to_double_zero pi_d_bounds
    by (simp add: poseAt_d_def currentAngle_d_last_at_end Math_PI_d_def)
  show "poseAt_d E 70 (currentAngle_d 4 1 3) =
      \<lparr>pose_y = Fin 0, pose_z = Fin 70, pose_rotateX = Fin 0\<rparr>"
    using assms r(2) to_double_zero pi_d_bounds
    by (simp add: poseAt_d_def currentAngle_d_last_at_end Math_PI_d_def)
qed

section \<open>Properties of the radius mapper\<close>

text \<open>
  C5: the radius is a total function of the viewport width with inclusive ascending
  thresholds: 70 up to 480, 75 above 480 up to 768, 100 above 768 up to 1200, and 120
  above 1200; at the boundaries 480, 481, 768, 769, 1200 and 1201 it is 70, 75, 75, 100,
  100 and 120.
\<close>

theorem getPointRadius_steps:
  "(w \<le> 480 \<longrightarrow> getPointRadius w = 70) \<and>
   (480 < w \<and> w \<le> 768 \<longrightarrow> getPointRadius w = 75) \<and>
   (768 < w \<and> w \<le> 1200 \<longrightarrow> getPointRadius w = 100) \<and>
   (1200 < w \<longrightarrow> getPointRadius w = 120) \<and>
   getPointRadius 480 = 70 \<and> getPointRadius 481 = 75 \<and> getPointRadius 768 = 75 \<and>
   getPointRadius 769 = 100 \<and> getPointRadius 1200 = 100 \<and> getPointRadius 1201 = 120"
  by (simp add: getPointRadius_def)

theorem getPointRadius_steps_witness:
  "(600::int) \<le> 768 \<and> 480 < (600::int) \<and> getPointRadius 600 = 75"
  using getPointRadius_steps [of 600] by simp

text \<open>
  C10: the radius is monotone non-decreasing in the viewport width, and the values it
  takes are exactly 70, 75, 100 and 120.
\<close>

theorem getPointRadius_mono_range:
  "(\<forall>w1 w2. w1 \<le> w2 \<longrightarrow> getPointRadius w1 \<le> getPointRadius w2) \<and>
   range getPointRadius = {70, 75, 100, 120}"
proof (intro conjI allI impI)
  fix w1 w2 :: int
  assume "w1 \<le> w2"
  then show "getPointRadius w1 \<le> getPointRadius w2"
    by (simp add: getPointRadius_def)
next
  have sub: "range getPointRadius \<subseteq> {70, 75, 100, 120}"
    by (auto simp add: getPointRadius_def)
  have "getPointRadius 0 = 70" "getPointRadius 500 = 75"
       "getPointRadius 1000 = 100" "getPointRadius 2000 = 120"
    by (simp_all add: getPointRadius_def)
  then have "{70, 75, 100, 120} \<subseteq> range getPointRadius"
    by (metis insert_subset empty_subsetI rangeI)
  with sub show "range getPointRadius = {70, 75, 100, 120}"
    by (rule equalityI)
qed

theorem getPointRadius_mono_range_witness:
  "(480::int) \<le> 481 \<and> getPointRadius 480 \<le> getPointRadius 481 \<and>
   (120::int) \<in> range getPointRadius"
proof -
  have "getPointRadius 480 \<le> getPointRadius 481"
    using getPointRadius_mono_range by simp
  moreover have "(120::int) \<in> range getPointRadius"
    using getPointRadius_mono_range by simp
  ultimately show ?thesis by simp
qed

section \<open>Properties of the projector\<close>

text \<open>
  C1: a viewport resize recomputes the rotation radius, so that the pose written on a
  scroll update after a resize across a breakpoint uses the radius of the new viewport
  width. The script does otherwise. Setup on the four-text page at width 1300 stores
  radius 120 in the trigger; after a resize to width 400, where the radius mapper gives
  70, the trigger still holds 120, and the scroll update at progress 1 writes on the last
  text the pose of angle 0 at radius 120, not the pose at radius 70.
\<close>

theorem resize_keeps_setup_radius:
  "\<exists>p1 p3. initPointAnimation page_four = Inr p1 \<and>
     fireAll [Resize 400, ScrollUpdate 1] p1 = Inr p3 \<and>
     getPointRadius (innerWidth p3) = 70 \<and>
     triggers p3 = [\<lparr>radius = 120, totalTexts = 4\<rparr>] \<and>
     transform (ani_texts p3 ! 3) =
       Some \<lparr>pose_y = Fin 0, pose_z = Fin 120, pose_rotateX = Fin 0\<rparr> \<and>
     poseAt (getPointRadius (innerWidth p3)) (currentAngle 4 1 3) =
       \<lparr>pose_y = Fin 0, pose_z = Fin 70, pose_rotateX = Fin 0\<rparr>"
  by (simp add: page_four_def fresh_text_def initPointAnimation_def gsap_utils_toArray_def
      global_ref_def initializePointTexts_def ScrollTrigger_create_def forEach_def
      getPointRadius_def Let_def handleResize_def AOS_refresh_def ScrollTrigger_refresh_def
      onUpdate_def updateText_def poseAt_def
      currentAngle_def baseAngle_def rotationProgress_def num_def js_sub_def Math_PI_def
      enumerate_four)

theorem resize_keeps_setup_radius_witness:
  "gsap_defined page_four \<and> ScrollTrigger_defined page_four \<and>
   (\<exists>p1 p3. initPointAnimation page_four = Inr p1 \<and>
      fireAll [Resize 400, ScrollUpdate 1] p1 = Inr p3 \<and>
      map radius (triggers p3) = [120] \<and> getPointRadius (innerWidth p3) = 70)"
proof -
  have libs: "gsap_defined page_four \<and> ScrollTrigger_defined page_four"
    by (simp add: page_four_def)
  obtain p1 p3 where run: "initPointAnimation page_four = Inr p1"
      "fireAll [Resize 400, ScrollUpdate 1] p1 = Inr p3"
      "getPointRadius (innerWidth p3) = 70"
      "triggers p3 = [\<lparr>radius = 120, totalTexts = 4\<rparr>]"
    using resize_keeps_setup_radius by blast
  from run(4) have "map radius (triggers p3) = [120]" by simp
  with libs run(1-3) show ?thesis by auto
qed

text \<open>
  C2: with a single text element the setup and the update neither divide by zero nor
  throw, and the element gets the pose of angle 0 (offset 0, depth equal to the radius,
  no rotation). The script does not throw, but it divides zero by zero: on the one-text
  page the setup writes a pose whose three components are \<open>NaN\<close>, and so does a scroll
  update, which also leaves the element out of focus.
\<close>

theorem single_text_pose_is_NaN:
  "\<exists>p1 p2. initPointAnimation page_one = Inr p1 \<and>
     triggers p1 = [\<lparr>radius = 120, totalTexts = 1\<rparr>] \<and>
     transform (ani_texts p1 ! 0) =
       Some \<lparr>pose_y = NaN, pose_z = NaN, pose_rotateX = NaN\<rparr> \<and>
     fire (ScrollUpdate (1 / 2)) p1 = Inr p2 \<and>
     transform (ani_texts p2 ! 0) =
       Some \<lparr>pose_y = NaN, pose_z = NaN, pose_rotateX = NaN\<rparr> \<and>
     \<not> focus (ani_texts p2 ! 0)"
  by (simp add: page_one_def page_four_def fresh_text_def initPointAnimation_def
      gsap_utils_toArray_def global_ref_def initializePointTexts_def ScrollTrigger_create_def
      forEach_def getPointRadius_def Let_def onUpdate_def updateText_def poseAt_def
      initialPose_def currentAngle_single isFocus_NaN num_def js_sub_def Math_PI_def
      enumerate_eq_zip)

theorem single_text_pose_is_NaN_witness:
  "gsap_defined page_one \<and> ScrollTrigger_defined page_one \<and>
   length (ani_texts page_one) = 1 \<and>
   (\<exists>p1. initPointAnimation page_one = Inr p1 \<and>
      map_option pose_z (transform (ani_texts p1 ! 0)) = Some NaN)"
proof -
  have libs: "gsap_defined page_one \<and> ScrollTrigger_defined page_one \<and>
      length (ani_texts page_one) = 1"
    by (simp add: page_one_def page_four_def)
  obtain p1 where run: "initPointAnimation page_one = Inr p1"
      "transform (ani_texts p1 ! 0) = Some \<lparr>pose_y = NaN, pose_z = NaN, pose_rotateX = NaN\<rparr>"
    using single_text_pose_is_NaN by blast
  from run(2) have "map_option pose_z (transform (ani_texts p1 ! 0)) = Some NaN" by simp
  with libs run(1) show ?thesis by auto
qed

text \<open>
  C4: on every update the normalised angle lies in \<open>[0, 2\<pi>)\<close>, and an element is in focus
  exactly when the normalised angle is below 0.3 or above \<open>2\<pi> - 0.3\<close>. On the one-text
  page the setup installs a trigger with a single text; on each of its updates the current
  angle is \<open>NaN\<close>, and so is the normalised angle, which is then no number of \<open>[0, 2\<pi>)\<close>.
  (For a finite angle, which is every angle when there are at least two texts, the
  normalised angle is in \<open>[0, 2\<pi>)\<close>: \<open>normalizedAngle_range\<close>, \<open>currentAngle_fin\<close>; the
  two cases of four texts at progress 0 are \<open>focus_four_at_start\<close>.)
\<close>

theorem single_text_angle_not_normalized:
  "(\<exists>p1. initPointAnimation page_one = Inr p1 \<and>
      triggers p1 = [\<lparr>radius = 120, totalTexts = 1\<rparr>]) \<and>
   currentAngle 1 (1 / 2) 0 = NaN \<and>
   normalizedAngle (currentAngle 1 (1 / 2) 0) = NaN \<and>
   (\<nexists>r. normalizedAngle (currentAngle 1 (1 / 2) 0) = Fin r \<and> 0 \<le> r \<and> r < 2 * pi) \<and>
   isFocus (currentAngle 1 (1 / 2) 0) =
     (js_lt (normalizedAngle (currentAngle 1 (1 / 2) 0)) (Fin 0.3) \<or>
      js_gt (normalizedAngle (currentAngle 1 (1 / 2) 0))
        (js_sub (js_mul Math_PI (Fin 2)) (Fin 0.3)))"
proof -
  have "\<exists>p1. initPointAnimation page_one = Inr p1 \<and>
      triggers p1 = [\<lparr>radius = 120, totalTexts = 1\<rparr>]"
    by (simp add: page_one_def page_four_def initPointAnimation_def gsap_utils_toArray_def
        global_ref_def initializePointTexts_def ScrollTrigger_create_def getPointRadius_def
        Let_def)
  then show ?thesis
    by (simp add: currentAngle_single normalizedAngle_NaN isFocus_def)
qed

theorem single_text_angle_not_normalized_witness:
  "gsap_defined page_one \<and> ScrollTrigger_defined page_one \<and>
   (\<exists>p1. initPointAnimation page_one = Inr p1 \<and> map totalTexts (triggers p1) = [1]) \<and>
   normalizedAngle (currentAngle 1 (1 / 2) 0) \<noteq> Fin 0"
proof -
  have libs: "gsap_defined page_one \<and> ScrollTrigger_defined page_one"
    by (simp add: page_one_def page_four_def)
  note t = single_text_angle_not_normalized
  from t obtain p1 where run: "initPointAnimation page_one = Inr p1"
      "triggers p1 = [\<lparr>radius = 120, totalTexts = 1\<rparr>]"
    by blast
  from run(2) have n: "map totalTexts (triggers p1) = [1]" by simp
  from t have "normalizedAngle (currentAngle 1 (1 / 2) 0) = NaN" by blast
  then have "normalizedAngle (currentAngle 1 (1 / 2) 0) \<noteq> Fin 0" by simp
  with libs run(1) n show ?thesis by auto
qed

text \<open>
  C8: when \<open>gsap\<close> or \<open>ScrollTrigger\<close> is undefined, the setup does not throw, creates no
  scroll trigger, writes no pose on any element, and logs one error message.
\<close>

theorem setup_without_libraries:
  assumes "\<not> gsap_defined p \<or> \<not> ScrollTrigger_defined p"
  shows "\<exists>p'. initPointAnimation p = Inr p' \<and>
     triggers p' = triggers p \<and> ani_texts p' = ani_texts p \<and>
     console p' = console p @ [''GSAP or ScrollTrigger not loaded'']"
  using assms by (auto simp add: initPointAnimation_def console_error_def)

theorem setup_without_libraries_witness:
  "\<not> gsap_defined page_no_gsap \<and>
   (\<exists>p'. initPointAnimation page_no_gsap = Inr p' \<and>
     triggers p' = [] \<and> ani_texts p' = [fresh_text, fresh_text, fresh_text, fresh_text] \<and>
     console p' = [''GSAP or ScrollTrigger not loaded''])"
proof -
  have h: "\<not> gsap_defined page_no_gsap \<or> \<not> ScrollTrigger_defined page_no_gsap"
    by (simp add: page_no_gsap_def)
  show ?thesis
    using h setup_without_libraries [OF h]
    by (simp add: page_no_gsap_def page_four_def)
qed

section \<open>Properties of the projector in double precision\<close>

text \<open>
  C3, as stated: the update computes the current angle as the base angle minus progress
  times \<open>\<pi>\<close>, with rotation progress equal to progress times \<open>N - 1\<close>. In double precision
  this fails. With four texts and progress the double nearest to one tenth, the rotation
  progress is rounded and is not the product of the progress and 3, and the current
  angle of the first text is neither the rounded value of the base angle minus progress
  times \<open>Math.PI\<close> nor the exact one.
\<close>

theorem update_angle_formula_counterexample:
  "rotationProgress_d 4 tenth_d = Fin (5404319552844596 / 2 ^ 54) \<and>
   (5404319552844596 / 2 ^ 54 :: real) \<noteq> tenth_d * 3 \<and>
   currentAngle_d 4 tenth_d 0 = Fin (- (5659390201622753 / 2 ^ 54)) \<and>
   d_sub (baseAngle_d 4 0) (d_mul (Fin tenth_d) Math_PI_d) =
     Fin (- (176855943800711 / 2 ^ 49)) \<and>
   (- (5659390201622753 / 2 ^ 54) :: real) \<noteq> - (176855943800711 / 2 ^ 49) \<and>
   (- (5659390201622753 / 2 ^ 54) :: real) \<noteq> 0 / 3 * pi_d - tenth_d * pi_d"
proof -
  have three: "d_sub (num 4) (Fin 1) = Fin 3"
    using to_double_three by (simp add: d_sub_def num_def)
  have rp: "to_double (tenth_d * 3) = Fin (5404319552844596 / 2 ^ 54)"
    using to_double_eval [of "- 2" "tenth_d * 3"]
    by (simp add: pow2_def round_half_even_def tenth_d_def)
  have m: "to_double (5404319552844596 / 2 ^ 54 * pi_d) = Fin (8489085302434129 / 2 ^ 53)"
    using to_double_eval [of "- 1" "5404319552844596 / 2 ^ 54 * pi_d"]
    by (simp add: pow2_def round_half_even_def pi_d_def)
  have d: "to_double (8489085302434129 / 2 ^ 53 / 3) = Fin (5659390201622753 / 2 ^ 54)"
    using to_double_eval [of "- 2" "8489085302434129 / 2 ^ 53 / 3"]
    by (simp add: pow2_def round_half_even_def)
  have a: "to_double (0 + - (5659390201622753 / 2 ^ 54)) = Fin (- (5659390201622753 / 2 ^ 54))"
    using to_double_eval [of "- 2" "0 + - (5659390201622753 / 2 ^ 54)"]
    by (simp add: pow2_def round_half_even_def)
  have q: "to_double (tenth_d * pi_d) = Fin (176855943800711 / 2 ^ 49)"
    using to_double_eval [of "- 2" "tenth_d * pi_d"]
    by (simp add: pow2_def round_half_even_def tenth_d_def pi_d_def)
  have b: "to_double (0 + - (176855943800711 / 2 ^ 49)) = Fin (- (176855943800711 / 2 ^ 49))"
    using to_double_eval [of "- 2" "0 + - (176855943800711 / 2 ^ 49)"]
    by (simp add: pow2_def round_half_even_def)
  have base: "baseAngle_d 4 0 = Fin 0" by (rule baseAngle_d_values)
  have rot: "rotationProgress_d 4 tenth_d = Fin (5404319552844596 / 2 ^ 54)"
    using rp by (simp add: rotationProgress_d_def three)
  have quot: "d_div (d_mul (Fin (5404319552844596 / 2 ^ 54)) Math_PI_d) (Fin 3) =
      Fin (5659390201622753 / 2 ^ 54)"
    using m d by (simp add: Math_PI_d_def)
  have "currentAngle_d 4 tenth_d 0 =
      d_sub (Fin 0) (d_div (d_mul (Fin (5404319552844596 / 2 ^ 54)) Math_PI_d) (Fin 3))"
    by (simp only: currentAngle_d_def base rot three)
  also have "\<dots> = d_sub (Fin 0) (Fin (5659390201622753 / 2 ^ 54))"
    by (simp only: quot)
  also have "\<dots> = Fin (- (5659390201622753 / 2 ^ 54))"
    using a by (simp add: d_sub_def)
  finally have cur: "currentAngle_d 4 tenth_d 0 = Fin (- (5659390201622753 / 2 ^ 54))" .
  have "d_mul (Fin tenth_d) Math_PI_d = Fin (176855943800711 / 2 ^ 49)"
    using q by (simp add: Math_PI_d_def)
  then have "d_sub (baseAngle_d 4 0) (d_mul (Fin tenth_d) Math_PI_d) =
      d_sub (Fin 0) (Fin (176855943800711 / 2 ^ 49))"
    by (simp only: base)
  also have "\<dots> = Fin (- (176855943800711 / 2 ^ 49))"
    using b by (simp add: d_sub_def)
  finally have direct: "d_sub (baseAngle_d 4 0) (d_mul (Fin tenth_d) Math_PI_d) =
      Fin (- (176855943800711 / 2 ^ 49))" .
  have ne1: "(5404319552844596 / 2 ^ 54 :: real) \<noteq> tenth_d * 3"
    by (simp add: tenth_d_def)
  have ne2: "(- (5659390201622753 / 2 ^ 54) :: real) \<noteq> - (176855943800711 / 2 ^ 49)"
    by simp
  have ne3: "(- (5659390201622753 / 2 ^ 54) :: real) \<noteq> 0 / 3 * pi_d - tenth_d * pi_d"
    by (simp add: tenth_d_def pi_d_def)
  from rot ne1 cur direct ne2 ne3 show ?thesis by blast
qed

text \<open>
  C3, amended: for two, three or four texts (the script keeps at most four), every
  element index and every progress in \<open>[0, 1]\<close>, the update computes the current angle in
  double precision, and the result is within \<open>1 / 2 ^ 44\<close> of \<open>index / (N - 1)\<close> times
  \<open>Math.PI\<close> minus progress times \<open>Math.PI\<close>. The base angles run from 0 to \<open>Math.PI\<close>, so
  that as progress goes from 0 to 1 every element sweeps by that span, up to that error.
  The pose written is the engine's sine and cosine of the current angle times the radius
  and minus the angle in degrees, each operation rounded. At progress 0 the current angle
  is the base angle exactly, and the pose is exactly the initial pose for the same
  radius.
\<close>

theorem update_angle_and_start_pose_d:
  assumes "2 \<le> n" and "n \<le> 4" and "index < n" and "0 \<le> progress" and "progress \<le> 1"
  shows
    "(\<exists>a. currentAngle_d n progress index = Fin a \<and>
        \<bar>a - (real index / real (n - 1) * pi_d - progress * pi_d)\<bar> \<le> 1 / 2 ^ 44 \<and>
        poseAt_d E r (currentAngle_d n progress index) =
          \<lparr>pose_y = to_double (Math_sin E a * of_int r),
           pose_z = to_double (Math_cos E a * of_int r),
           pose_rotateX = js_neg (d_div (to_double (a * 180)) Math_PI_d)\<rparr>) \<and>
     baseAngle_d n 0 = Fin 0 \<and> baseAngle_d n (n - 1) = Fin pi_d \<and>
     currentAngle_d n 0 index = baseAngle_d n index \<and>
     poseAt_d E r (currentAngle_d n 0 index) = initialPose_d E n r index \<and>
     (\<forall>c p p'. totalTexts c = n \<and> index < length (ani_texts p) \<and>
         onUpdate_d E c progress p = Inr p' \<longrightarrow>
         transform (ani_texts p' ! index) =
           Some (poseAt_d E (radius c) (currentAngle_d n progress index)))"
proof -
  obtain a where a: "currentAngle_d n progress index = Fin a"
      "\<bar>a - (real index / real (n - 1) * pi_d - progress * pi_d)\<bar> \<le> pow2 (- 44)"
    using currentAngle_d_close [OF assms] by blast
  have "pow2 (- 44) = 1 / 2 ^ 44" by (simp add: pow2_def)
  with a(2) have err: "\<bar>a - (real index / real (n - 1) * pi_d - progress * pi_d)\<bar> \<le> 1 / 2 ^ 44"
    by simp
  have pose: "poseAt_d E r (currentAngle_d n progress index) =
          \<lparr>pose_y = to_double (Math_sin E a * of_int r),
           pose_z = to_double (Math_cos E a * of_int r),
           pose_rotateX = js_neg (d_div (to_double (a * 180)) Math_PI_d)\<rparr>"
    by (simp add: a(1) poseAt_d_def)
  have start: "currentAngle_d n 0 index = baseAngle_d n index"
    using assms(1-3) by (rule currentAngle_d_start)
  have init: "poseAt_d E r (currentAngle_d n 0 index) = initialPose_d E n r index"
    by (simp only: start initialPose_d_eq_poseAt_d)
  have tick: "transform (ani_texts p' ! index) =
      Some (poseAt_d E (radius c) (currentAngle_d n progress index))"
    if "totalTexts c = n \<and> index < length (ani_texts p) \<and> onUpdate_d E c progress p = Inr p'"
    for c p p'
    using that assms(3) onUpdate_d_nth [of E c progress p p' index]
    by (simp add: updateText_d_def Let_def)
  from a(1) err pose baseAngle_d_ends [OF assms(1,2)] start init tick
  show ?thesis by blast
qed

theorem update_angle_and_start_pose_d_witness:
  "(2::nat) \<le> 4 \<and> (4::nat) \<le> 4 \<and> (3::nat) < 4 \<and> (0::real) \<le> 1 \<and> (1::real) \<le> 1 \<and>
   (\<exists>a. currentAngle_d 4 1 3 = Fin a \<and> \<bar>a - (real 3 / real (4 - 1) * pi_d - 1 * pi_d)\<bar> \<le> 1 / 2 ^ 44) \<and>
   baseAngle_d 4 (4 - 1) = Fin pi_d \<and>
   poseAt_d rounding_engine 120 (currentAngle_d 4 0 3) = initialPose_d rounding_engine 4 120 3 \<and>
   (\<exists>p'. onUpdate_d rounding_engine \<lparr>radius = 120, totalTexts = 4\<rparr> 1 page_four = Inr p' \<and>
      3 < length (ani_texts page_four) \<and>
      transform (ani_texts p' ! 3) = Some (poseAt_d rounding_engine 120 (currentAngle_d 4 1 3)))"
proof -
  have h: "(2::nat) \<le> 4" "(4::nat) \<le> 4" "(3::nat) < 4" "(0::real) \<le> 1" "(1::real) \<le> 1"
    by simp_all
  note t = update_angle_and_start_pose_d [OF h, of rounding_engine 120]
  from t have a: "\<exists>a. currentAngle_d 4 1 3 = Fin a \<and>
      \<bar>a - (real 3 / real (4 - 1) * pi_d - 1 * pi_d)\<bar> \<le> 1 / 2 ^ 44"
    by blast
  from t have b: "baseAngle_d 4 (4 - 1) = Fin pi_d" by blast
  from t have i: "poseAt_d rounding_engine 120 (currentAngle_d 4 0 3) =
      initialPose_d rounding_engine 4 120 3"
    by blast
  obtain p' where run:
      "onUpdate_d rounding_engine \<lparr>radius = 120, totalTexts = 4\<rparr> 1 page_four = Inr p'"
    by (simp add: onUpdate_d_def global_ref_def page_four_def)
  have len: "3 < length (ani_texts page_four)" by (simp add: page_four_def)
  from t have "\<forall>c p p'. totalTexts c = 4 \<and> 3 < length (ani_texts p) \<and>
         onUpdate_d rounding_engine c 1 p = Inr p' \<longrightarrow>
         transform (ani_texts p' ! 3) =
           Some (poseAt_d rounding_engine (radius c) (currentAngle_d 4 1 3))"
    by blast
  from this [rule_format, of "\<lparr>radius = 120, totalTexts = 4\<rparr>" page_four p'] run len
  have "transform (ani_texts p' ! 3) =
      Some (poseAt_d rounding_engine 120 (currentAngle_d 4 1 3))"
    by simp
  with run len a b i h show ?thesis by blast
qed

text \<open>
  C9, as stated: with four texts the current angles of adjacent elements always differ by
  exactly \<open>\<pi> / 3\<close>. In double precision this fails: at progress 0 the angles of the third
  and the fourth text are doubles whose difference is neither \<open>Math.PI\<close> divided by 3
  exactly nor the double that \<open>Math.PI / 3\<close> evaluates to.
\<close>

theorem adjacent_angles_counterexample:
  "currentAngle_d 4 0 2 = Fin (4716158501352293 / 2 ^ 51) \<and>
   currentAngle_d 4 0 3 = Fin pi_d \<and>
   pi_d - 4716158501352293 / 2 ^ 51 \<noteq> pi_d / 3 \<and>
   d_div Math_PI_d (Fin 3) = Fin (4716158501352293 / 2 ^ 52) \<and>
   pi_d - 4716158501352293 / 2 ^ 51 \<noteq> 4716158501352293 / 2 ^ 52"
proof -
  have h: "(2::nat) \<le> 4" "(4::nat) \<le> 4" by simp_all
  have a: "currentAngle_d 4 0 2 = Fin (4716158501352293 / 2 ^ 51)"
    using currentAngle_d_start [OF h, of 2] baseAngle_d_values(8) by simp
  have b: "currentAngle_d 4 0 3 = Fin pi_d"
    using currentAngle_d_start [OF h, of 3] baseAngle_d_values(9) by simp
  have q: "d_div Math_PI_d (Fin 3) = Fin (4716158501352293 / 2 ^ 52)"
    using to_double_eval [of 0 "pi_d / 3"]
    by (simp add: Math_PI_d_def pow2_def round_half_even_def pi_d_def)
  have ne: "pi_d - 4716158501352293 / 2 ^ 51 \<noteq> pi_d / 3"
      "pi_d - 4716158501352293 / 2 ^ 51 \<noteq> 4716158501352293 / 2 ^ 52"
    by (simp_all add: pi_d_def)
  from a b q ne show ?thesis by blast
qed

text \<open>
  C9, amended: with four texts, at every progress in \<open>[0, 1]\<close>, no two of the four
  elements satisfy the focus predicate in the same update: the current angles of adjacent
  elements differ by \<open>Math.PI / 3\<close> up to a rounding error of at most \<open>1 / 2 ^ 43\<close>, which
  still exceeds the width 0.6 of the focus window, so after each update at most one of
  the four elements holds the class \<open>focus\<close>.
\<close>

theorem focus_at_most_one_of_four_d:
  assumes "0 \<le> progress" and "progress \<le> 1"
  shows
    "(\<forall>i<4. \<forall>j<4. i \<noteq> j \<longrightarrow>
        \<not> (isFocus_d (currentAngle_d 4 progress i) \<and> isFocus_d (currentAngle_d 4 progress j))) \<and>
     (\<forall>i<3. \<exists>a b. currentAngle_d 4 progress i = Fin a \<and>
        currentAngle_d 4 progress (Suc i) = Fin b \<and> \<bar>b - a - pi_d / 3\<bar> \<le> 1 / 2 ^ 43) \<and>
     0.6 < pi_d / 3 - 1 / 2 ^ 43 \<and>
     (\<forall>E r p p'. 4 \<le> length (ani_texts p) \<and>
        onUpdate_d E \<lparr>radius = r, totalTexts = 4\<rparr> progress p = Inr p' \<longrightarrow>
        (\<forall>i<4. \<forall>j<4. i \<noteq> j \<longrightarrow>
           \<not> (focus (ani_texts p' ! i) \<and> focus (ani_texts p' ! j))))"
proof (intro conjI allI impI)
  fix i j :: nat
  assume "i < 4" "j < 4" "i \<noteq> j"
  with assms
  show "\<not> (isFocus_d (currentAngle_d 4 progress i) \<and> isFocus_d (currentAngle_d 4 progress j))"
    by (rule focus_pair_four_d)
next
  fix i :: nat
  assume i: "i < 3"
  have e: "pow2 (- 44) = 1 / 2 ^ 44" by (simp add: pow2_def)
  obtain a where a: "currentAngle_d 4 progress i = Fin a"
      "\<bar>a - (real i / 3 * pi_d - progress * pi_d)\<bar> \<le> 1 / 2 ^ 44"
    using currentAngle_d_close [of 4 i progress] assms i e by auto
  obtain b where b: "currentAngle_d 4 progress (Suc i) = Fin b"
      "\<bar>b - (real (Suc i) / 3 * pi_d - progress * pi_d)\<bar> \<le> 1 / 2 ^ 44"
    using currentAngle_d_close [of 4 "Suc i" progress] assms i e by auto
  have "(real (Suc i) / 3 * pi_d - progress * pi_d) - (real i / 3 * pi_d - progress * pi_d) =
      pi_d / 3"
    by (simp add: algebra_simps)
  with a(2) b(2) have "\<bar>b - a - pi_d / 3\<bar> \<le> 1 / 2 ^ 44 + 1 / 2 ^ 44" by linarith
  then have "\<bar>b - a - pi_d / 3\<bar> \<le> 1 / 2 ^ 43" by simp
  with a(1) b(1)
  show "\<exists>a b. currentAngle_d 4 progress i = Fin a \<and>
      currentAngle_d 4 progress (Suc i) = Fin b \<and> \<bar>b - a - pi_d / 3\<bar> \<le> 1 / 2 ^ 43"
    by blast
next
  show "0.6 < pi_d / 3 - 1 / 2 ^ 43" by (simp add: pi_d_def)
next
  fix E r p p' and i j :: nat
  assume run: "4 \<le> length (ani_texts p) \<and>
      onUpdate_d E \<lparr>radius = r, totalTexts = 4\<rparr> progress p = Inr p'"
    and ij: "i < 4" "j < 4" "i \<noteq> j"
  have "focus (ani_texts p' ! k) = isFocus_d (currentAngle_d 4 progress k)" if "k < 4" for k
    using run that onUpdate_d_nth [of E "\<lparr>radius = r, totalTexts = 4\<rparr>" progress p p' k]
    by (simp add: updateText_d_def Let_def)
  with ij focus_pair_four_d [OF assms ij]
  show "\<not> (focus (ani_texts p' ! i) \<and> focus (ani_texts p' ! j))"
    by simp
qed

theorem focus_at_most_one_of_four_d_witness:
  "(0::real) \<le> 0 \<and> (0::real) \<le> 1 \<and> (0::nat) < 4 \<and> (1::nat) < 4 \<and> (0::nat) \<noteq> 1 \<and>
   (0::nat) < 3 \<and>
   isFocus_d (currentAngle_d 4 0 0) \<and> \<not> isFocus_d (currentAngle_d 4 0 1) \<and>
   (\<exists>a b. currentAngle_d 4 0 0 = Fin a \<and> currentAngle_d 4 0 (Suc 0) = Fin b \<and>
      \<bar>b - a - pi_d / 3\<bar> \<le> 1 / 2 ^ 43) \<and>
   (\<exists>p'. 4 \<le> length (ani_texts page_four) \<and>
      onUpdate_d rounding_engine \<lparr>radius = 120, totalTexts = 4\<rparr> 0 page_four = Inr p' \<and>
      \<not> (focus (ani_texts p' ! 0) \<and> focus (ani_texts p' ! 1)))"
proof -
  have h: "(0::real) \<le> 0" "(0::real) \<le> 1" by simp_all
  note t = focus_at_most_one_of_four_d [OF h]
  have f0: "isFocus_d (currentAngle_d 4 0 0)"
    by (rule isFocus_d_first_at_start)
  from t have pairs: "\<forall>i<4. \<forall>j<4. i \<noteq> j \<longrightarrow>
      \<not> (isFocus_d (currentAngle_d 4 0 i) \<and> isFocus_d (currentAngle_d 4 0 j))"
    by blast
  from pairs [rule_format, of 0 1]
  have "\<not> (isFocus_d (currentAngle_d 4 0 0) \<and> isFocus_d (currentAngle_d 4 0 1))"
    by simp
  with f0 have f1: "\<not> isFocus_d (currentAngle_d 4 0 1)" by simp
  from t have steps: "\<forall>i<3. \<exists>a b. currentAngle_d 4 0 i = Fin a \<and>
      currentAngle_d 4 0 (Suc i) = Fin b \<and> \<bar>b - a - pi_d / 3\<bar> \<le> 1 / 2 ^ 43"
    by blast
  from steps [rule_format, of 0]
  have adj: "\<exists>a b. currentAngle_d 4 0 0 = Fin a \<and> currentAngle_d 4 0 (Suc 0) = Fin b \<and>
      \<bar>b - a - pi_d / 3\<bar> \<le> 1 / 2 ^ 43"
    by simp
  obtain p' where run:
      "onUpdate_d rounding_engine \<lparr>radius = 120, totalTexts = 4\<rparr> 0 page_four = Inr p'"
    by (simp add: onUpdate_d_def global_ref_def page_four_def)
  have len: "4 \<le> length (ani_texts page_four)" by (simp add: page_four_def)
  from t have "\<forall>E r p p'. 4 \<le> length (ani_texts p) \<and>
      onUpdate_d E \<lparr>radius = r, totalTexts = 4\<rparr> 0 p = Inr p' \<longrightarrow>
      (\<forall>i<4. \<forall>j<4. i \<noteq> j \<longrightarrow> \<not> (focus (ani_texts p' ! i) \<and> focus (ani_texts p' ! j)))"
    by blast
  from this [rule_format, of page_four rounding_engine 120 p'] run len
  have after: "\<forall>i<4. \<forall>j<4. i \<noteq> j \<longrightarrow>
      \<not> (focus (ani_texts p' ! i) \<and> focus (ani_texts p' ! j))"
    by blast
  from after [rule_format, of 0 1]
  have "\<not> (focus (ani_texts p' ! 0) \<and> focus (ani_texts p' ! 1))"
    by simp
  with run len f0 f1 adj show ?thesis by auto
qed

section \<open>Properties of the preloader\<close>

text \<open>
  C6: when the probe reports WebP unsupported, the WebP path is never asked for, neither
  as a resource hint nor as an image load, and the one image loaded is the JPEG; when the
  probe reports it supported and the load of the WebP image fails, exactly one load of
  the JPEG path follows and nothing is loaded after it.
\<close>

theorem preload_attempts:
  "(\<not> webp_decodes b \<longrightarrow>
      webp_path \<notin> set (requested (actions (aggressivePreloadImages b)))) \<and>
   (protocol b \<noteq> ''file:'' \<and> \<not> webp_decodes b \<longrightarrow>
      image_loads (actions (aggressivePreloadImages b)) = [jpg_path]) \<and>
   (protocol b \<noteq> ''file:'' \<and> webp_decodes b \<and> image_result b webp_path = Errored \<longrightarrow>
      image_loads (actions (aggressivePreloadImages b)) = [webp_path, jpg_path])"
proof (intro conjI impI)
  assume "\<not> webp_decodes b"
  then show "webp_path \<notin> set (requested (actions (aggressivePreloadImages b)))"
    using paths_differ
    by (simp add: aggressivePreloadImages_def Let_def requested_apply split: outcome.split)
next
  assume "protocol b \<noteq> ''file:'' \<and> \<not> webp_decodes b"
  then show "image_loads (actions (aggressivePreloadImages b)) = [jpg_path]"
    by (simp add: aggressivePreloadImages_def Let_def image_loads_apply split: outcome.split)
next
  assume "protocol b \<noteq> ''file:'' \<and> webp_decodes b \<and> image_result b webp_path = Errored"
  then show "image_loads (actions (aggressivePreloadImages b)) = [webp_path, jpg_path]"
    using webp_path_includes
    by (simp add: aggressivePreloadImages_def Let_def image_loads_fallback)
qed

theorem preload_attempts_witness:
  "\<not> webp_decodes browser_no_webp \<and> protocol browser_no_webp \<noteq> ''file:'' \<and>
   requested (actions (aggressivePreloadImages browser_no_webp)) = [jpg_path, jpg_path] \<and>
   image_loads (actions (aggressivePreloadImages browser_no_webp)) = [jpg_path] \<and>
   webp_path \<notin> set (requested (actions (aggressivePreloadImages browser_no_webp))) \<and>
   protocol browser_all_fail \<noteq> ''file:'' \<and> webp_decodes browser_all_fail \<and>
   image_result browser_all_fail webp_path = Errored \<and>
   image_loads (actions (aggressivePreloadImages browser_all_fail)) = [webp_path, jpg_path]"
proof -
  have a: "\<not> webp_decodes browser_no_webp" and a': "protocol browser_no_webp \<noteq> ''file:''"
    by (simp_all add: browser_no_webp_def)
  from a a' preload_attempts [of browser_no_webp]
  have e: "image_loads (actions (aggressivePreloadImages browser_no_webp)) = [jpg_path]"
    by blast
  have b: "protocol browser_all_fail \<noteq> ''file:'' \<and> webp_decodes browser_all_fail \<and>
      image_result browser_all_fail webp_path = Errored"
    by (simp add: browser_all_fail_def)
  have r: "requested (actions (aggressivePreloadImages browser_no_webp)) = [jpg_path, jpg_path]"
    by (simp add: aggressivePreloadImages_def browser_no_webp_def Let_def
        applyBackgroundImage_def)
  from a preload_attempts [of browser_no_webp]
  have c: "webp_path \<notin> set (requested (actions (aggressivePreloadImages browser_no_webp)))"
    by blast
  from b preload_attempts [of browser_all_fail]
  have d: "image_loads (actions (aggressivePreloadImages browser_all_fail)) =
      [webp_path, jpg_path]"
    by blast
  from a a' b r c d e show ?thesis by blast
qed

text \<open>
  C7: when the fallback load fails, or the directly chosen legacy path fails, the promise
  returned is rejected, so the failure reaches the caller. For the directly chosen legacy
  path this is so (\<open>direct_legacy_failure_rejected\<close>). For the fallback it is not: in a
  browser that decodes WebP and fails every image load, the invocation loads the WebP
  image, logs the failure, loads the JPEG image, and then nothing more happens: the
  promise stays pending, neither resolved nor rejected.
\<close>

theorem fallback_failure_not_reported:
  "actions (aggressivePreloadImages browser_all_fail) =
     [ProbeWebP, PreloadLink webp_path, LoadImage webp_path,
      ConsoleError BackgroundFailed, LoadImage jpg_path] \<and>
   returned (aggressivePreloadImages browser_all_fail) = Pending \<and>
   returned (aggressivePreloadImages browser_all_fail) \<noteq> Rejected False"
  using webp_path_includes
  by (simp add: aggressivePreloadImages_def browser_all_fail_def Let_def loadFallbackImage_def)

end
